theory Spec2Isabelle
  imports Main "HOL-Library.AList" "HOL-Library.Multiset"
begin

section \<open>Strings\<close>

text \<open>
  A JavaScript string is a sequence of UTF-16 code units. The model takes the strings whose
  code units are below 256 (the Latin-1 range, which holds the German letters the
  application is written for); a \<^typ>\<open>char\<close> is one such code unit and \<^const>\<open>length\<close>
  is \<open>String.prototype.length\<close>. On this range the built-ins used by the server are
  as follows.
\<close>

definition lower_char :: "char \<Rightarrow> char" where
  \<comment> \<open>\<open>A\<close>..\<open>Z\<close> and U+00C0..U+00DE without the multiplication sign U+00D7 have a
      lowercase form, 32 code units up; every other code unit is its own lowercase form.\<close>
  "lower_char c =
     (let n = (of_char c :: nat)
      in if (65 \<le> n \<and> n \<le> 90) \<or> (192 \<le> n \<and> n \<le> 222 \<and> n \<noteq> 215)
         then char_of (n + 32) else c)"

definition toLowerCase :: "string \<Rightarrow> string" where
  "toLowerCase s = map lower_char s"

definition is_space :: "char \<Rightarrow> bool" where
  \<comment> \<open>White space and line terminators: TAB, LF, VT, FF, CR, SP and NBSP. This is what
      \<open>trim\<close> strips and what \<open>\s\<close> matches.\<close>
  "is_space c = (of_char c \<in> {9, 10, 11, 12, 13, 32, 160 :: nat})"

definition trim :: "string \<Rightarrow> string" where
  "trim s = rev (dropWhile is_space (rev (dropWhile is_space s)))"

text \<open>
  \<open>s.split(d)\<close> for a one-character separator: the fields between the occurrences of
  \<open>d\<close>, one more than there are occurrences (so the empty string gives one empty field).
\<close>

function split_str :: "char \<Rightarrow> string \<Rightarrow> string list" where
  "split_str d s =
     (case dropWhile (\<lambda>c. c \<noteq> d) s of
        [] \<Rightarrow> [s]
      | _ # rest \<Rightarrow> takeWhile (\<lambda>c. c \<noteq> d) s # split_str d rest)"
  by pat_completeness auto
termination
proof (relation "measure (\<lambda>(d, s). length s)")
  show "wf (measure (\<lambda>(d, s). length s))" by simp
next
  fix d :: char and s :: string and x rest
  assume "dropWhile (\<lambda>c. c \<noteq> d) s = x # rest"
  then have "length rest < length (dropWhile (\<lambda>c. c \<noteq> d) s)" by simp
  also have "\<dots> \<le> length s" by (rule length_dropWhile_le)
  finally show "((d, rest), (d, s)) \<in> measure (\<lambda>(d, s). length s)" by simp
qed

declare split_str.simps [simp del]

text \<open>
  \<open>raw.split(/\r?\n/)\<close>: the separators are the line feeds, each together with a carriage
  return directly before it. So the text is cut at the line feeds and every field that a line
  feed ended (all but the last) loses one trailing carriage return.
\<close>

definition strip_cr :: "string \<Rightarrow> string" where
  "strip_cr f = (if f \<noteq> [] \<and> last f = CHR 0x0D then butlast f else f)"

definition split_lines :: "string \<Rightarrow> string list" where
  "split_lines raw =
     (let fs = split_str (CHR 0x0A) raw in map strip_cr (butlast fs) @ [last fs])"

text \<open>A JavaScript value used as a condition: \<open>null\<close> and the empty string are falsy.\<close>

definition truthy :: "string option \<Rightarrow> bool" where
  "truthy v = (case v of None \<Rightarrow> False | Some x \<Rightarrow> x \<noteq> [])"

section \<open>Constraint file\<close>

text \<open>
  \<open>readConstraintsFile\<close>: the argument is the content of \<open>constraints.txt\<close>, or \<open>None\<close>
  when \<open>fs.readFileSync\<close> throws (the file is absent or unreadable), which the \<open>catch\<close>
  turns into the empty list. The loop body handles one line; \<open>continue\<close> is \<open>None\<close>.
\<close>

definition parse_line :: "string \<Rightarrow> (string \<times> string) option" where
  "parse_line line =
     (let trimmed = trim line
      in if trimmed = [] \<or> take 1 trimmed = ''#'' then None
         else let parts = split_str (CHR '','') trimmed
              in if length parts \<noteq> 2 then None
                 else let giver = trim (parts ! 0); receiver = trim (parts ! 1)
                      in if giver = [] \<or> receiver = [] then None
                         else Some (toLowerCase giver, toLowerCase receiver))"

definition readConstraintsFile :: "string option \<Rightarrow> (string \<times> string) list" where
  "readConstraintsFile file =
     (case file of
        None \<Rightarrow> []
      | Some raw \<Rightarrow> List.map_filter parse_line (split_lines raw))"

definition pair_key :: "string \<Rightarrow> string \<Rightarrow> string" where
  \<comment> \<open>the template string \<open>`${g}|${r}`\<close>\<close>
  "pair_key g r = g @ ''|'' @ r"

definition bannedSetOf :: "(string \<times> string) list \<Rightarrow> string set" where
  \<comment> \<open>the loop of \<open>buildBannedSet\<close> over the pairs read\<close>
  "bannedSetOf pairs = set (map (\<lambda>(g, r). pair_key g r) pairs)"

definition buildBannedSet :: "string option \<Rightarrow> string set" where
  "buildBannedSet file = bannedSetOf (readConstraintsFile file)"

section \<open>Derangement solver\<close>

text \<open>
  \<open>Math.random()\<close> is the only source of nondeterminism. A run of the solver sees the
  sequence of values it returns; the model takes that sequence as a function from the number
  of the call to a natural number \<open>r\<close>, and \<open>Math.floor(Math.random() * (i + 1))\<close> is
  \<open>r mod (i + 1)\<close>, an index in \<open>0..i\<close> as in the source. The functions return the number
  of the next unused call together with their result.
\<close>

type_synonym rand = "nat \<Rightarrow> nat"

definition swap :: "nat \<Rightarrow> nat \<Rightarrow> 'a list \<Rightarrow> 'a list" where
  \<comment> \<open>\<open>[a[i], a[j]] = [a[j], a[i]]\<close>: both reads come before both writes\<close>
  "swap i j a = (a[i := a ! j])[j := a ! i]"

fun shuffle_loop :: "nat \<Rightarrow> 'a list \<Rightarrow> rand \<Rightarrow> nat \<Rightarrow> 'a list \<times> nat" where
  \<comment> \<open>\<open>for (let i = ...; i > 0; i--)\<close>, entered with the current \<open>i\<close>\<close>
  "shuffle_loop 0 a rnd k = (a, k)"
| "shuffle_loop (Suc m) a rnd k =
     (let i = Suc m; j = rnd k mod (i + 1)
      in shuffle_loop m (swap i j a) rnd (k + 1))"

definition shuffle :: "'a list \<Rightarrow> rand \<Rightarrow> nat \<Rightarrow> 'a list \<times> nat" where
  "shuffle array rnd k = shuffle_loop (length array - 1) array rnd k"

definition is_banned :: "string set option \<Rightarrow> string \<Rightarrow> string \<Rightarrow> bool" where
  \<comment> \<open>the second test of the inner loop,
      \<open>bannedSet && bannedSet.has(`${giver.toLowerCase()}|${receiver.toLowerCase()}`)\<close>;
      the banned set is \<open>None\<close> when the argument is missing\<close>
  "is_banned bannedSet giver receiver =
     (case bannedSet of
        None \<Rightarrow> False
      | Some b \<Rightarrow> pair_key (toLowerCase giver) (toLowerCase receiver) \<in> b)"

definition valid_perm :: "string list \<Rightarrow> string list \<Rightarrow> string set option \<Rightarrow> bool" where
  \<comment> \<open>the inner loop: \<open>valid\<close> stays true iff no position fails one of the two tests\<close>
  "valid_perm names perm bannedSet =
     list_all (\<lambda>i. \<not> (perm ! i = names ! i) \<and> \<not> is_banned bannedSet (names ! i) (perm ! i))
       [0..<length names]"

definition build_map :: "string list \<Rightarrow> string list \<Rightarrow> (string \<times> string) list" where
  \<comment> \<open>a \<open>Map\<close> keeps its keys in insertion order; \<open>map.set\<close> on a key already present
      replaces the value in place, which is \<^const>\<open>AList.update\<close>\<close>
  "build_map names perm =
     foldl (\<lambda>m i. AList.update (names ! i) (perm ! i) m) [] [0..<length names]"

fun attempts ::
  "nat \<Rightarrow> string list \<Rightarrow> string set option \<Rightarrow> rand \<Rightarrow> nat \<Rightarrow> (string \<times> string) list option"
where
  \<comment> \<open>the attempt loop with the number of attempts left\<close>
  "attempts 0 names bannedSet rnd k = None"
| "attempts (Suc n) names bannedSet rnd k =
     (let (perm, k') = shuffle names rnd k
      in if valid_perm names perm bannedSet then Some (build_map names perm)
         else attempts n names bannedSet rnd k')"

definition createDerangement ::
  "string list \<Rightarrow> string set option \<Rightarrow> rand \<Rightarrow> (string \<times> string) list option"
where
  "createDerangement names bannedSet rnd =
     (if length names < 2 then None else attempts 1000 names bannedSet rnd 0)"

subsection \<open>The reduced deployment (\<open>server.js\<close>)\<close>

text \<open>
  \<open>server.js\<close> has the same \<open>shuffle\<close>, word for word, and builds its \<open>Map\<close> in the same
  way; its \<open>createDerangement\<close> takes no banned set and has one test in the inner loop.
\<close>

definition valid_perm_reduced :: "string list \<Rightarrow> string list \<Rightarrow> bool" where
  "valid_perm_reduced names perm =
     list_all (\<lambda>i. \<not> (perm ! i = names ! i)) [0..<length names]"

fun attempts_reduced ::
  "nat \<Rightarrow> string list \<Rightarrow> rand \<Rightarrow> nat \<Rightarrow> (string \<times> string) list option"
where
  "attempts_reduced 0 names rnd k = None"
| "attempts_reduced (Suc n) names rnd k =
     (let (perm, k') = shuffle names rnd k
      in if valid_perm_reduced names perm then Some (build_map names perm)
         else attempts_reduced n names rnd k')"

definition createDerangement_reduced ::
  "string list \<Rightarrow> rand \<Rightarrow> (string \<times> string) list option"
where
  "createDerangement_reduced names rnd =
     (if length names < 2 then None else attempts_reduced 1000 names rnd 0)"

section \<open>Registry\<close>

text \<open>
  A connection (a \<open>ws\<close> object) is a number. The three global maps keep their entries in
  insertion order, as a JavaScript \<open>Map\<close> and \<open>Set\<close> do, so they are association lists
  with distinct keys: \<open>map.set\<close> is \<^const>\<open>AList.update\<close>, \<open>map.get\<close> is
  \<^const>\<open>map_of\<close>, \<open>map.delete\<close> is \<^const>\<open>AList.delete\<close>.
\<close>

type_synonym conn = nat

record participant =
  name :: "string option"
  email :: "string option"
  sessionId :: string

record session =
  sess_name :: string
  sess_email :: string
  target :: "string option"

record pinfo =
  p_name :: string
  p_email :: string
  online :: bool

datatype error_text =
    NameEmpty            \<comment> \<open>Name darf nicht leer sein.\<close>
  | NameTooLong          \<comment> \<open>Name ist zu lang (max. 40).\<close>
  | EmailEmpty           \<comment> \<open>E-Mail-Adresse darf nicht leer sein.\<close>
  | EmailInvalid         \<comment> \<open>Ungueltige E-Mail-Adresse.\<close>
  | NameTaken            \<comment> \<open>Name bereits vergeben. Bitte anderen waehlen.\<close>
  | InvalidAction        \<comment> \<open>Ungueltige Aktion.\<close>
  | TooFewParticipants   \<comment> \<open>Mindestens 2 Teilnehmer noetig.\<close>
  | NoDistribution       \<comment> \<open>Konnte keine gueltige Verteilung finden. Bitte erneut versuchen.\<close>

datatype message =
    Participants "string list" "pinfo list"
  | Your_target string
  | Name_ok string "string option"   \<comment> \<open>the name, and the session id where the reply carries one\<close>
  | Error error_text
  | Reset
  | Draw_complete

text \<open>
  Besides the three maps the state holds what the handlers read from and write to the outside:
  which sockets are in \<open>readyState\<close> \<open>OPEN\<close>, the messages written to sockets, the calls of
  \<open>sendEmail\<close> (recipient, name, target) and the pairs last written to \<open>Lose.txt\<close>.
\<close>

record state =
  participants :: "(conn \<times> participant) list"
  masters :: "conn list"
  sessions :: "(string \<times> session) list"
  openSocks :: "conn set"
  outbox :: "(conn \<times> message) list"
  emails :: "(string \<times> string \<times> string) list"
  loseTxt :: "(string \<times> string) list option"

definition init_state :: state where
  "init_state = \<lparr>participants = [], masters = [], sessions = [], openSocks = {},
                  outbox = [], emails = [], loseTxt = None\<rparr>"

definition send :: "conn \<Rightarrow> message \<Rightarrow> state \<Rightarrow> state" where
  "send ws data s = (if ws \<in> openSocks s then s\<lparr>outbox := outbox s @ [(ws, data)]\<rparr> else s)"

definition broadcastToMasters :: "message \<Rightarrow> state \<Rightarrow> state" where
  "broadcastToMasters msg s = fold (\<lambda>ws. send ws msg) (masters s) s"

text \<open>
  \<open>Array.prototype.sort\<close> with a comparator is a stable sort. The comparator of the source
  is \<open>localeCompare\<close> with the German collation, which is not part of the repository: the
  functions that sort take the comparator as the parameter \<open>cmp\<close> (negative, zero or
  positive, as in JavaScript).
\<close>

fun insert_cmp :: "('a \<Rightarrow> 'a \<Rightarrow> int) \<Rightarrow> 'a \<Rightarrow> 'a list \<Rightarrow> 'a list" where
  "insert_cmp cmp x [] = [x]"
| "insert_cmp cmp x (y # ys) = (if cmp x y \<le> 0 then x # y # ys else y # insert_cmp cmp x ys)"

definition sort_cmp :: "('a \<Rightarrow> 'a \<Rightarrow> int) \<Rightarrow> 'a list \<Rightarrow> 'a list" where
  "sort_cmp cmp xs = foldr (insert_cmp cmp) xs []"

definition offline_undrawn :: "session \<Rightarrow> bool" where
  \<comment> \<open>\<open>session.name && session.email && !session.target\<close>\<close>
  "offline_undrawn r = (sess_name r \<noteq> [] \<and> sess_email r \<noteq> [] \<and> \<not> truthy (target r))"

definition getParticipantNames :: "(string \<Rightarrow> string \<Rightarrow> int) \<Rightarrow> state \<Rightarrow> string list" where
  "getParticipantNames cmp s =
     (let names0 = map (\<lambda>(ws, p). the (name p)) (filter (\<lambda>(ws, p). truthy (name p)) (participants s));
          names = foldl (\<lambda>names (sid, r).
                     if offline_undrawn r \<and>
                        \<not> list_ex (\<lambda>n. toLowerCase n = toLowerCase (sess_name r)) names
                     then names @ [sess_name r] else names)
                   names0 (sessions s)
      in sort_cmp cmp names)"

definition getAllParticipants :: "(string \<Rightarrow> string \<Rightarrow> int) \<Rightarrow> state \<Rightarrow> pinfo list" where
  "getAllParticipants cmp s =
     (let m0 = foldl (\<lambda>m (ws, p).
                  if truthy (name p) \<and> truthy (email p)
                  then AList.update (toLowerCase (the (name p)))
                         \<lparr>p_name = the (name p), p_email = the (email p), online = True\<rparr> m
                  else m)
                [] (participants s);
          m1 = foldl (\<lambda>m (sid, r).
                  if offline_undrawn r
                  then (let key = toLowerCase (sess_name r)
                        in if map_of m key = None
                           then AList.update key
                                  \<lparr>p_name = sess_name r, p_email = sess_email r, online = False\<rparr> m
                           else AList.map_entry key (\<lambda>v. v\<lparr>online := True\<rparr>) m)
                  else m)
                m0 (sessions s)
      in sort_cmp (\<lambda>a b. cmp (p_name a) (p_name b)) (map snd m1))"

definition isNameTaken :: "string \<Rightarrow> state \<Rightarrow> bool" where
  "isNameTaken nm s =
     (let nameLower = toLowerCase nm
      in list_ex (\<lambda>(ws, p). truthy (name p) \<and> toLowerCase (the (name p)) = nameLower)
           (participants s) \<or>
         list_ex (\<lambda>(sid, r). sess_name r \<noteq> [] \<and> toLowerCase (sess_name r) = nameLower \<and>
                             \<not> truthy (target r))
           (sessions s))"

definition isValidEmail :: "string \<Rightarrow> bool" where
  \<comment> \<open>the regular expression \<open>/^[^\s@]+@[^\s@]+\.[^\s@]+$/\<close>: an \<open>@\<close> at some position
      \<open>i\<close> and a dot at some position \<open>j\<close>, with at least one character before \<open>i\<close>, between
      \<open>i\<close> and \<open>j\<close> and after \<open>j\<close>, and no white space and no further \<open>@\<close> anywhere\<close>
  "isValidEmail e =
     list_ex (\<lambda>i. list_ex (\<lambda>j.
         0 < i \<and> i + 1 < j \<and> j + 1 < length e \<and> e ! i = CHR ''@'' \<and> e ! j = CHR ''.'' \<and>
         list_all (\<lambda>k. k = i \<or> \<not> (is_space (e ! k) \<or> e ! k = CHR ''@'')) [0..<length e])
       [0..<length e]) [0..<length e]"

definition broadcastParticipantsUpdate :: "(string \<Rightarrow> string \<Rightarrow> int) \<Rightarrow> state \<Rightarrow> state" where
  "broadcastParticipantsUpdate cmp s =
     (let allParticipants = getAllParticipants cmp s
      in broadcastToMasters (Participants (map p_name allParticipants) allParticipants) s)"

definition sendEmail :: "string \<Rightarrow> string \<Rightarrow> string \<Rightarrow> state \<Rightarrow> state" where
  "sendEmail to nm tgt s = s\<lparr>emails := emails s @ [(to, nm, tgt)]\<rparr>"

definition writeDistributionFile ::
  "(string \<Rightarrow> string \<Rightarrow> int) \<Rightarrow> (string \<times> string) list \<Rightarrow> state \<Rightarrow> state"
where
  "writeDistributionFile cmp mapping s =
     s\<lparr>loseTxt := Some (sort_cmp (\<lambda>a b. cmp (fst a) (fst b)) mapping)\<rparr>"

section \<open>Connection handlers\<close>

text \<open>
  \<open>wss.on('connection')\<close>. \<open>role\<close> is the query parameter after its default; \<open>cookie\<close> is
  the session id found in the cookie header, if any; \<open>fresh\<close> is what
  \<open>generateSessionId()\<close> returns.
\<close>

definition on_connection ::
  "(string \<Rightarrow> string \<Rightarrow> int) \<Rightarrow> conn \<Rightarrow> string \<Rightarrow> string option \<Rightarrow> string \<Rightarrow> state \<Rightarrow> state"
where
  "on_connection cmp ws role cookie fresh s =
     (if role = ''master'' then
        (let s1 = s\<lparr>masters := (if ws \<in> set (masters s) then masters s else masters s @ [ws])\<rparr>;
             allParticipants = getAllParticipants cmp s1
         in send ws (Participants (map p_name allParticipants) allParticipants) s1)
      else
        (let sessionData = (if truthy cookie then map_of (sessions s) (the cookie) else None);
             participantData =
               \<lparr>name = (case sessionData of
                          None \<Rightarrow> None
                        | Some r \<Rightarrow> if sess_name r = [] then None else Some (sess_name r)),
                email = (case sessionData of
                           None \<Rightarrow> None
                         | Some r \<Rightarrow> if sess_email r = [] then None else Some (sess_email r)),
                sessionId = (if truthy cookie then the cookie else fresh)\<rparr>;
             s1 = s\<lparr>participants := AList.update ws participantData (participants s)\<rparr>
         in case sessionData of
              None \<Rightarrow> s1
            | Some r \<Rightarrow>
                if truthy (target r) then send ws (Your_target (the (target r))) s1
                else if sess_name r \<noteq> [] \<and> sess_email r \<noteq> [] then send ws (Name_ok (sess_name r) None) s1
                else s1))"

text \<open>The \<open>set_name\<close> block of the message handler, entered with the two string fields.\<close>

definition set_name ::
  "(string \<Rightarrow> string \<Rightarrow> int) \<Rightarrow> conn \<Rightarrow> string \<Rightarrow> string \<Rightarrow> state \<Rightarrow> state"
where
  "set_name cmp ws nm em s =
     (let trimmed = trim nm; trimmedEmail = trim em
      in if trimmed = [] then send ws (Error NameEmpty) s
         else if length trimmed > 40 then send ws (Error NameTooLong) s
         else if trimmedEmail = [] then send ws (Error EmailEmpty) s
         else if \<not> isValidEmail trimmedEmail then send ws (Error EmailInvalid) s
         else if isNameTaken trimmed s then send ws (Error NameTaken) s
         else case map_of (participants s) ws of
                None \<Rightarrow> send ws (Error InvalidAction) s
              | Some p \<Rightarrow>
                  (let s1 = s\<lparr>participants :=
                               AList.update ws (p\<lparr>name := Some trimmed, email := Some trimmedEmail\<rparr>)
                                 (participants s)\<rparr>;
                       s2 = (case map_of (sessions s1) (sessionId p) of
                               None \<Rightarrow>
                                 s1\<lparr>sessions := AList.update (sessionId p)
                                      \<lparr>sess_name = trimmed, sess_email = trimmedEmail, target = None\<rparr>
                                      (sessions s1)\<rparr>
                             | Some r \<Rightarrow>
                                 s1\<lparr>sessions := AList.update (sessionId p)
                                      (r\<lparr>sess_name := trimmed, sess_email := trimmedEmail\<rparr>)
                                      (sessions s1)\<rparr>);
                       s3 = send ws (Name_ok trimmed (Some (sessionId p))) s2
                   in broadcastParticipantsUpdate cmp s3))"

text \<open>
  The \<open>remove_name\<close> block. The first loop changes the entries it visits in place and sends
  \<open>reset\<close>; the second deletes entries of the map it iterates over, which a \<open>Map\<close> allows.
\<close>

definition name_is :: "string \<Rightarrow> participant \<Rightarrow> bool" where
  \<comment> \<open>\<open>info.name && info.name.toLowerCase() === targetLower\<close>\<close>
  "name_is targetLower info = (truthy (name info) \<and> toLowerCase (the (name info)) = targetLower)"

definition session_is :: "string \<Rightarrow> session \<Rightarrow> bool" where
  \<comment> \<open>\<open>session.name && session.name.toLowerCase() === targetLower\<close>\<close>
  "session_is targetLower r = (sess_name r \<noteq> [] \<and> toLowerCase (sess_name r) = targetLower)"

definition remove_name :: "(string \<Rightarrow> string \<Rightarrow> int) \<Rightarrow> string \<Rightarrow> state \<Rightarrow> state" where
  "remove_name cmp nm s =
     (let targetLower = toLowerCase (trim nm);
          s1 = s\<lparr>participants :=
                   map (\<lambda>(sock, info).
                          (sock, if name_is targetLower info
                                 then info\<lparr>name := None, email := None\<rparr> else info))
                     (participants s)\<rparr>;
          s2 = fold (\<lambda>(sock, info) st.
                       if name_is targetLower info then send sock Reset st else st)
                 (participants s) s1;
          s3 = s2\<lparr>sessions := filter (\<lambda>(sid, r). \<not> session_is targetLower r) (sessions s2)\<rparr>
      in broadcastParticipantsUpdate cmp s3)"

text \<open>
  The \<open>start_draw\<close> block. \<open>file\<close> is what reading \<open>constraints.txt\<close> gives and \<open>rnd\<close> the
  values of \<open>Math.random()\<close> during this call.
\<close>

definition draw_online :: "(string \<times> string) list \<Rightarrow> conn \<times> participant \<Rightarrow> state \<Rightarrow> state" where
  \<comment> \<open>one round of the loop over the connected participants\<close>
  "draw_online mapping = (\<lambda>(sock, info) st.
     if truthy (name info) \<and> map_of mapping (the (name info)) \<noteq> None then
       (let tgt = the (map_of mapping (the (name info)));
            st1 = send sock (Your_target tgt) st;
            st2 = (if sessionId info \<noteq> [] \<and> map_of (sessions st1) (sessionId info) \<noteq> None
                   then st1\<lparr>sessions := AList.map_entry (sessionId info)
                                           (\<lambda>r. r\<lparr>target := Some tgt\<rparr>) (sessions st1)\<rparr>
                   else st1)
        in if truthy (email info) then sendEmail (the (email info)) (the (name info)) tgt st2
           else st2)
     else st)"

definition offline_hit :: "(string \<times> string) list \<Rightarrow> session \<Rightarrow> bool" where
  \<comment> \<open>\<open>session.name && session.email && !session.target && mapping.has(session.name)\<close>\<close>
  "offline_hit mapping r = (offline_undrawn r \<and> map_of mapping (sess_name r) \<noteq> None)"

definition draw_offline :: "(string \<times> string) list \<Rightarrow> state \<Rightarrow> state" where
  \<comment> \<open>the loop over the session records, each changed in place\<close>
  "draw_offline mapping st =
     (let hits = filter (\<lambda>(sid, r). offline_hit mapping r) (sessions st);
          st1 = st\<lparr>sessions :=
                     map (\<lambda>(sid, r).
                            (sid, if offline_hit mapping r
                                  then r\<lparr>target := Some (the (map_of mapping (sess_name r)))\<rparr>
                                  else r))
                       (sessions st)\<rparr>
      in fold (\<lambda>(sid, r). sendEmail (sess_email r) (sess_name r)
                                    (the (map_of mapping (sess_name r))))
           hits st1)"

definition start_draw ::
  "(string \<Rightarrow> string \<Rightarrow> int) \<Rightarrow> string option \<Rightarrow> rand \<Rightarrow> conn \<Rightarrow> state \<Rightarrow> state"
where
  "start_draw cmp file rnd ws s =
     (let names = getParticipantNames cmp s
      in if length names < 2 then send ws (Error TooFewParticipants) s
         else let bannedSet = buildBannedSet file
              in case createDerangement names (Some bannedSet) rnd of
                   None \<Rightarrow> send ws (Error NoDistribution) s
                 | Some mapping \<Rightarrow>
                     (let s1 = fold (draw_online mapping) (participants s) s;
                          s2 = draw_offline mapping s1;
                          s3 = writeDistributionFile cmp mapping s2
                      in broadcastToMasters Draw_complete s3))"

text \<open>
  \<open>ws.on('message')\<close> after \<open>JSON.parse\<close> has succeeded. Of the parsed value the handler
  reads three fields; each is a string or something else (absent, a number, \<dots>). The three
  blocks of the handler test \<open>data.type\<close> against three different strings, so at most one of
  them runs, and a \<open>return\<close> inside a block ends the handler.
\<close>

datatype json = JString string | JOther

record data =
  d_type :: json
  d_name :: json
  d_email :: json

definition is_string :: "json \<Rightarrow> bool" where
  \<comment> \<open>\<open>typeof v === 'string'\<close>\<close>
  "is_string v = (case v of JString x \<Rightarrow> True | JOther \<Rightarrow> False)"

definition str :: "json \<Rightarrow> string" where
  \<comment> \<open>the string that a value is, read only where \<^const>\<open>is_string\<close> holds\<close>
  "str v = (case v of JString x \<Rightarrow> x | JOther \<Rightarrow> [])"

definition on_message ::
  "(string \<Rightarrow> string \<Rightarrow> int) \<Rightarrow> string option \<Rightarrow> rand \<Rightarrow> conn \<Rightarrow> string \<Rightarrow> data \<Rightarrow> state \<Rightarrow> state"
where
  "on_message cmp file rnd ws role d s =
     (if d_type d = JString ''set_name'' \<and> is_string (d_name d) \<and> is_string (d_email d)
      then set_name cmp ws (str (d_name d)) (str (d_email d)) s
      else if role = ''master'' \<and> d_type d = JString ''remove_name'' \<and> is_string (d_name d)
      then remove_name cmp (str (d_name d)) s
      else if role = ''master'' \<and> d_type d = JString ''start_draw''
      then start_draw cmp file rnd ws s
      else s)"

definition on_close :: "(string \<Rightarrow> string \<Rightarrow> int) \<Rightarrow> conn \<Rightarrow> state \<Rightarrow> state" where
  "on_close cmp ws s =
     (if ws \<in> set (masters s) then s\<lparr>masters := removeAll ws (masters s)\<rparr>
      else case map_of (participants s) ws of
             None \<Rightarrow> s
           | Some p \<Rightarrow>
               (let s1 = s\<lparr>participants := AList.delete ws (participants s)\<rparr>
                in if truthy (name p) then broadcastParticipantsUpdate cmp s1 else s1))"



text \<open>
  The states the server can be in: it starts with empty maps, and a step is one of the
  three events on some connection or a change of the sockets that are open.
\<close>

inductive reachable :: "state \<Rightarrow> bool" where
  start: "reachable init_state"
| connection: "reachable s \<Longrightarrow> reachable (on_connection cmp ws role cookie fresh s)"
| message: "reachable s \<Longrightarrow> reachable (on_message cmp file rnd ws role d s)"
| close: "reachable s \<Longrightarrow> reachable (on_close cmp ws s)"
| socket: "reachable s \<Longrightarrow> reachable (s\<lparr>openSocks := socks\<rparr>)"

text \<open>
  A comparator to run examples with: the lowercased code units in lexicographic order, which
  is how the German collation orders unaccented names that differ in a letter.
\<close>

fun lex_compare :: "nat list \<Rightarrow> nat list \<Rightarrow> int" where
  "lex_compare [] [] = 0"
| "lex_compare [] (y # ys) = - 1"
| "lex_compare (x # xs) [] = 1"
| "lex_compare (x # xs) (y # ys) =
     (if x < y then - 1 else if y < x then 1 else lex_compare xs ys)"

definition compare_letters :: "string \<Rightarrow> string \<Rightarrow> int" where
  "compare_letters a b =
     lex_compare (map of_char (toLowerCase a)) (map of_char (toLowerCase b))"

section \<open>A run of the server\<close>

text \<open>
  The frames the two clients send, two sequences of random values, and the states of one run:
  three participants connect without a cookie and register, the observer connects and draws,
  and then either draws again, or removes a name; or the first participant leaves before any
  draw.
\<close>

definition msg_set_name :: "string \<Rightarrow> string \<Rightarrow> data" where
  "msg_set_name nm em = \<lparr>d_type = JString ''set_name'', d_name = JString nm, d_email = JString em\<rparr>"

definition msg_remove_name :: "string \<Rightarrow> data" where
  "msg_remove_name nm = \<lparr>d_type = JString ''remove_name'', d_name = JString nm, d_email = JOther\<rparr>"

definition msg_start_draw :: data where
  "msg_start_draw = \<lparr>d_type = JString ''start_draw'', d_name = JOther, d_email = JOther\<rparr>"

definition rnd_zero :: rand where
  "rnd_zero k = 0"

definition rnd_one_zero :: rand where
  "rnd_one_zero k = (if k = 0 then 1 else 0)"

definition three_registered :: state where
  "three_registered =
     (let s0 = init_state\<lparr>openSocks := {0, 1, 2, 3}\<rparr>;
          s1 = on_connection compare_letters 1 ''participant'' None ''s1'' s0;
          s2 = on_connection compare_letters 2 ''participant'' None ''s2'' s1;
          s3 = on_connection compare_letters 3 ''participant'' None ''s3'' s2;
          s4 = on_message compare_letters None rnd_zero 1 ''participant''
                 (msg_set_name ''Alice'' ''alice@example.org'') s3;
          s5 = on_message compare_letters None rnd_zero 2 ''participant''
                 (msg_set_name ''Bob'' ''bob@example.org'') s4;
          s6 = on_message compare_letters None rnd_zero 3 ''participant''
                 (msg_set_name ''Carol'' ''carol@example.org'') s5
      in on_connection compare_letters 0 ''master'' None [] s6)"

definition first_draw :: state where
  "first_draw = on_message compare_letters None rnd_one_zero 0 ''master'' msg_start_draw three_registered"

definition second_draw :: state where
  "second_draw = on_message compare_letters None rnd_zero 0 ''master'' msg_start_draw first_draw"

definition alice_offline :: state where
  "alice_offline = on_close compare_letters 1 three_registered"

definition alice_removed :: state where
  "alice_removed = on_message compare_letters None rnd_zero 0 ''master'' (msg_remove_name ''Alice'') first_draw"





text \<open>
  What may happen between two lookups of the token \<open>sid\<close> without touching its record: any
  event except a \<open>remove_name\<close> of the observer for the name of the record, and except a
  \<open>start_draw\<close> of the observer while some connection carries the token.
\<close>

definition removes_record :: "string \<Rightarrow> data \<Rightarrow> state \<Rightarrow> bool" where
  "removes_record sid d s =
     (d_type d = JString ''remove_name'' \<and> is_string (d_name d) \<and>
      (case map_of (sessions s) sid of
         None \<Rightarrow> False
       | Some r \<Rightarrow> session_is (toLowerCase (trim (str (d_name d)))) r))"

definition draws_live :: "string \<Rightarrow> data \<Rightarrow> state \<Rightarrow> bool" where
  "draws_live sid d s =
     (d_type d = JString ''start_draw'' \<and>
      list_ex (\<lambda>(ws, p). sessionId p = sid) (participants s))"

inductive undisturbed :: "string \<Rightarrow> state \<Rightarrow> state \<Rightarrow> bool" for sid :: string and s :: state where
  same: "undisturbed sid s s"
| connection: "undisturbed sid s s' \<Longrightarrow> undisturbed sid s (on_connection cmp ws role cookie fresh s')"
| message: "undisturbed sid s s' \<Longrightarrow>
            \<not> (role = ''master'' \<and> (removes_record sid d s' \<or> draws_live sid d s')) \<Longrightarrow>
            undisturbed sid s (on_message cmp file rnd ws role d s')"
| close: "undisturbed sid s s' \<Longrightarrow> undisturbed sid s (on_close cmp ws s')"
| socket: "undisturbed sid s s' \<Longrightarrow> undisturbed sid s (s'\<lparr>openSocks := socks\<rparr>)"



text \<open>A constraint file with good and bad lines.\<close>

definition example_constraints :: string where
  "example_constraints =
     ''# Format: GEBER, EMPFAENGER'' @ [CHR 0x0D, CHR 0x0A] @
     ''Alice, Bob'' @ [CHR 0x0D, CHR 0x0A] @
     [CHR 0x0A] @
     ''  Bob ,ALICE'' @ [CHR 0x0A] @
     ''Carol'' @ [CHR 0x0A] @
     ''Alice, Bob, Carol'' @ [CHR 0x0A] @
     '', Carol'' @ [CHR 0x0A]"

section \<open>Properties of the solver\<close>

lemma swap_length [simp]: "length (swap i j a) = length a"
  by (simp add: swap_def)

lemma swap_mset: "i < length a \<Longrightarrow> j < length a \<Longrightarrow> mset (swap i j a) = mset a"
  unfolding swap_def by (metis mset_swap)

lemma shuffle_loop_props:
  "i < length a \<Longrightarrow>
   mset (fst (shuffle_loop i a rnd k)) = mset a \<and> snd (shuffle_loop i a rnd k) = k + i"
proof (induction i arbitrary: a k)
  case 0
  then show ?case by simp
next
  case (Suc m)
  have j: "rnd k mod (Suc m + 1) < length a"
  proof -
    have "rnd k mod (Suc m + 1) < Suc m + 1" by simp
    with Suc.prems show ?thesis by linarith
  qed
  have "m < length (swap (Suc m) (rnd k mod (Suc m + 1)) a)" using Suc.prems by simp
  from Suc.IH [OF this, of "k + 1"] show ?case
    using Suc.prems j by (simp add: swap_mset Let_def)
qed

lemma shuffle_mset: "mset (fst (shuffle a rnd k)) = mset a"
proof (cases a)
  case Nil
  then show ?thesis by (simp add: shuffle_def)
next
  case (Cons x xs)
  then show ?thesis unfolding shuffle_def using shuffle_loop_props [of "length a - 1" a rnd k] by simp
qed

lemma shuffle_next: "snd (shuffle a rnd k) = k + (length a - 1)"
proof (cases a)
  case Nil
  then show ?thesis by (simp add: shuffle_def)
next
  case (Cons x xs)
  then show ?thesis unfolding shuffle_def using shuffle_loop_props [of "length a - 1" a rnd k] by simp
qed

lemma shuffle_length: "length (fst (shuffle a rnd k)) = length a"
  by (metis shuffle_mset size_mset)

lemma build_map_take:
  assumes "distinct names" "length perm = length names"
  shows "n \<le> length names \<Longrightarrow>
     foldl (\<lambda>m i. AList.update (names ! i) (perm ! i) m) [] [0..<n] = zip (take n names) (take n perm)"
proof (induction n)
  case 0
  then show ?case by simp
next
  case (Suc n)
  then have n: "n < length names" by simp
  have notin: "names ! n \<notin> fst ` set (zip (take n names) (take n perm))"
  proof
    assume "names ! n \<in> fst ` set (zip (take n names) (take n perm))"
    then have "names ! n \<in> set (take n names)" by (auto dest: set_zip_leftD)
    then obtain i where "i < n" "names ! i = names ! n"
      using n by (auto simp: in_set_conv_nth)
    with assms(1) n show False by (simp add: nth_eq_iff_index_eq)
  qed
  have upd: "\<And>k v al. k \<notin> fst ` set al \<Longrightarrow> AList.update k v al = al @ [(k, v)]"
    subgoal for k v al by (induction al) auto
    done
  show ?case using Suc n assms(2) notin
    by (simp add: upd take_Suc_conv_app_nth)
qed

lemma build_map_zip:
  "distinct names \<Longrightarrow> length perm = length names \<Longrightarrow> build_map names perm = zip names perm"
  unfolding build_map_def using build_map_take [of names perm "length names"] by simp

lemma attempts_Some:
  "attempts n names b rnd k = Some m \<Longrightarrow>
   \<exists>a<n. valid_perm names (fst (shuffle names rnd (k + a * (length names - 1)))) b \<and>
         m = build_map names (fst (shuffle names rnd (k + a * (length names - 1)))) \<and>
         (\<forall>a'<a. \<not> valid_perm names (fst (shuffle names rnd (k + a' * (length names - 1)))) b)"
proof (induction n arbitrary: k)
  case 0
  then show ?case by simp
next
  case (Suc n)
  show ?case
  proof (cases "valid_perm names (fst (shuffle names rnd k)) b")
    case True
    with Suc.prems show ?thesis
      by (intro exI [of _ 0]) (auto simp: case_prod_beta Let_def)
  next
    case False
    with Suc.prems have "attempts n names b rnd (k + (length names - 1)) = Some m"
      by (simp add: case_prod_beta Let_def shuffle_next)
    from Suc.IH [OF this] obtain a where a: "a < n"
      "valid_perm names (fst (shuffle names rnd (k + (length names - 1) + a * (length names - 1)))) b"
      "m = build_map names (fst (shuffle names rnd (k + (length names - 1) + a * (length names - 1))))"
      "\<forall>a'<a. \<not> valid_perm names (fst (shuffle names rnd (k + (length names - 1) + a' * (length names - 1)))) b"
      by blast
    have eq: "\<And>x. k + (length names - 1) + x * (length names - 1) = k + Suc x * (length names - 1)"
      by simp
    show ?thesis
    proof (intro exI [of _ "Suc a"] conjI allI impI)
      show "Suc a < Suc n" using a(1) by simp
      show "valid_perm names (fst (shuffle names rnd (k + Suc a * (length names - 1)))) b"
        using a(2) unfolding eq .
      show "m = build_map names (fst (shuffle names rnd (k + Suc a * (length names - 1))))"
        using a(3) unfolding eq .
      fix a' assume "a' < Suc a"
      show "\<not> valid_perm names (fst (shuffle names rnd (k + a' * (length names - 1)))) b"
      proof (cases a')
        case 0
        then show ?thesis using False by simp
      next
        case (Suc x)
        with \<open>a' < Suc a\<close> have "x < a" by simp
        with a(4) show ?thesis unfolding Suc eq [symmetric] by blast
      qed
    qed
  qed
qed

lemma attempts_None:
  "attempts n names b rnd k = None \<longleftrightarrow>
   (\<forall>a<n. \<not> valid_perm names (fst (shuffle names rnd (k + a * (length names - 1)))) b)"
proof (induction n arbitrary: k)
  case 0
  then show ?case by simp
next
  case (Suc n)
  have eq: "\<And>x. k + (length names - 1) + x * (length names - 1) = k + Suc x * (length names - 1)"
    by simp
  show ?case
  proof (cases "valid_perm names (fst (shuffle names rnd k)) b")
    case True
    then show ?thesis by (auto simp: case_prod_beta Let_def intro: exI [of _ 0])
  next
    case False
    have "(\<forall>a<Suc n. \<not> valid_perm names (fst (shuffle names rnd (k + a * (length names - 1)))) b)
       \<longleftrightarrow> (\<forall>a<n. \<not> valid_perm names (fst (shuffle names rnd (k + Suc a * (length names - 1)))) b)"
      using False by (auto simp: less_Suc_eq_0_disj)
    moreover have "attempts (Suc n) names b rnd k = attempts n names b rnd (k + (length names - 1))"
      using False by (simp add: case_prod_beta shuffle_next)
    ultimately show ?thesis using Suc.IH [of "k + (length names - 1)"]
      unfolding eq by simp
  qed
qed

lemma attempts_reduced_eq: "attempts_reduced n names rnd k = attempts n names (Some {}) rnd k"
  by (induction n arbitrary: k) (simp_all add: valid_perm_def is_banned_def valid_perm_reduced_def case_prod_beta)

lemma attempts_reduced_eq_None: "attempts_reduced n names rnd k = attempts n names None rnd k"
  by (induction n arbitrary: k) (simp_all add: valid_perm_def is_banned_def valid_perm_reduced_def case_prod_beta)

lemma zip_bij:
  assumes "distinct xs" "mset ys = mset xs"
  shows "bij_betw (\<lambda>n. the (map_of (zip xs ys) n)) (set xs) (set xs)"
proof -
  have len: "length xs = length ys" using assms(2) by (metis size_mset)
  have dy: "distinct ys" using assms by (metis mset_eq_imp_distinct_iff)
  have sy: "set ys = set xs" using assms(2) by (metis mset_eq_setD)
  have nth: "\<And>i. i < length xs \<Longrightarrow> the (map_of (zip xs ys) (xs ! i)) = ys ! i"
    using len assms(1) by (simp add: map_of_zip_nth)
  have "inj_on (\<lambda>n. the (map_of (zip xs ys) n)) (set xs)"
  proof (rule inj_onI)
    fix a b
    assume a: "a \<in> set xs" and b: "b \<in> set xs"
      and eq: "the (map_of (zip xs ys) a) = the (map_of (zip xs ys) b)"
    from a obtain i where i: "i < length xs" "a = xs ! i" by (auto simp: in_set_conv_nth)
    from b obtain j where j: "j < length xs" "b = xs ! j" by (auto simp: in_set_conv_nth)
    from eq i j nth have "ys ! i = ys ! j" by simp
    with dy i(1) j(1) len have "i = j" by (simp add: nth_eq_iff_index_eq)
    with i j show "a = b" by simp
  qed
  moreover have "(\<lambda>n. the (map_of (zip xs ys) n)) ` set xs = set xs"
  proof -
    have "(\<lambda>n. the (map_of (zip xs ys) n)) ` set xs = set ys"
    proof (rule set_eqI)
      fix y
      show "y \<in> (\<lambda>n. the (map_of (zip xs ys) n)) ` set xs \<longleftrightarrow> y \<in> set ys"
      proof
        assume "y \<in> (\<lambda>n. the (map_of (zip xs ys) n)) ` set xs"
        then obtain i where "i < length xs" "y = the (map_of (zip xs ys) (xs ! i))"
          by (auto simp: in_set_conv_nth)
        with nth len show "y \<in> set ys" by simp
      next
        assume "y \<in> set ys"
        then obtain i where "i < length ys" "y = ys ! i" by (auto simp: in_set_conv_nth)
        with nth len have "y = the (map_of (zip xs ys) (xs ! i))" "xs ! i \<in> set xs" by simp_all
        then show "y \<in> (\<lambda>n. the (map_of (zip xs ys) n)) ` set xs" by blast
      qed
    qed
    with sy show ?thesis by simp
  qed
  ultimately show ?thesis by (simp add: bij_betw_def)
qed

lemma valid_perm_zip:
  assumes "valid_perm names perm b" "length perm = length names" "(n, t) \<in> set (zip names perm)"
  shows "t \<noteq> n \<and> \<not> is_banned b n t"
proof -
  from assms(3) obtain i where "i < length names" "n = names ! i" "t = perm ! i"
    using assms(2) by (auto simp: set_zip)
  with assms(1) show ?thesis by (auto simp: valid_perm_def list_all_iff)
qed

lemma is_banned_pairs:
  "(toLowerCase n, toLowerCase t) \<in> set pairs \<Longrightarrow> is_banned (Some (bannedSetOf pairs)) n t"
  by (force simp: is_banned_def bannedSetOf_def)

lemma createDerangement_Some:
  assumes "createDerangement names b rnd = Some m"
  shows "2 \<le> length names \<and>
         (\<exists>perm. mset perm = mset names \<and> valid_perm names perm b \<and> m = build_map names perm)"
proof -
  from assms have len: "2 \<le> length names" and att: "attempts 1000 names b rnd 0 = Some m"
    by (auto simp: createDerangement_def split: if_splits)
  from attempts_Some [OF att] obtain a where
    "valid_perm names (fst (shuffle names rnd (0 + a * (length names - 1)))) b"
    "m = build_map names (fst (shuffle names rnd (0 + a * (length names - 1))))"
    by blast
  with len shuffle_mset show ?thesis by blast
qed

text \<open>
  Claim C2. With fewer than two names the solver returns no solution. For pairwise distinct
  names it returns either no solution, and then there were fewer than two names or each of
  the 1000 shuffles failed the test, or a mapping whose keys are the names in their order,
  which is a bijection of the set of names onto itself, maps no name to itself and contains
  no pair that the banned set forbids under lowercasing; in particular no pair of a list of
  lowercased pairs from which the banned set was built.
\<close>

theorem createDerangement_sound:
  "distinct names \<Longrightarrow>
   (length names < 2 \<longrightarrow> createDerangement names bannedSet rnd = None) \<and>
   (case createDerangement names bannedSet rnd of
      None \<Rightarrow>
        length names < 2 \<or>
        (\<forall>a<1000. \<not> valid_perm names (fst (shuffle names rnd (a * (length names - 1)))) bannedSet)
    | Some m \<Rightarrow>
        2 \<le> length names \<and> map fst m = names \<and>
        bij_betw (\<lambda>n. the (map_of m n)) (set names) (set names) \<and>
        (\<forall>(n, t)\<in>set m.
            t \<noteq> n \<and> \<not> is_banned bannedSet n t \<and>
            (\<forall>pairs. bannedSet = Some (bannedSetOf pairs) \<longrightarrow>
                     (toLowerCase n, toLowerCase t) \<notin> set pairs)))"
proof (intro conjI impI)
  show "createDerangement names bannedSet rnd = None" if "length names < 2"
    using that by (simp add: createDerangement_def)
next
  assume d: "distinct names"
  show "case createDerangement names bannedSet rnd of
      None \<Rightarrow>
        length names < 2 \<or>
        (\<forall>a<1000. \<not> valid_perm names (fst (shuffle names rnd (a * (length names - 1)))) bannedSet)
    | Some m \<Rightarrow>
        2 \<le> length names \<and> map fst m = names \<and>
        bij_betw (\<lambda>n. the (map_of m n)) (set names) (set names) \<and>
        (\<forall>(n, t)\<in>set m.
            t \<noteq> n \<and> \<not> is_banned bannedSet n t \<and>
            (\<forall>pairs. bannedSet = Some (bannedSetOf pairs) \<longrightarrow>
                     (toLowerCase n, toLowerCase t) \<notin> set pairs))"
  proof (cases "createDerangement names bannedSet rnd")
    case None
    show ?thesis
    proof (cases "length names < 2")
      case True
      with None show ?thesis by simp
    next
      case False
      with None have "attempts 1000 names bannedSet rnd 0 = None"
        by (simp add: createDerangement_def)
      then have "\<forall>a<1000. \<not> valid_perm names (fst (shuffle names rnd (a * (length names - 1)))) bannedSet"
        using attempts_None [of 1000 names bannedSet rnd 0] by simp
      with None show ?thesis by simp
    qed
  next
    case (Some m)
    from createDerangement_Some [OF Some] obtain perm where
      len: "2 \<le> length names" and p: "mset perm = mset names"
      and v: "valid_perm names perm bannedSet" and m: "m = build_map names perm"
      by blast
    have lp: "length perm = length names" using p by (metis size_mset)
    have mz: "m = zip names perm" using m d lp by (simp add: build_map_zip)
    have keys: "map fst m = names" using mz lp by simp
    have bij: "bij_betw (\<lambda>n. the (map_of m n)) (set names) (set names)"
      unfolding mz using d p by (rule zip_bij)
    have ok: "\<forall>(n, t)\<in>set m.
            t \<noteq> n \<and> \<not> is_banned bannedSet n t \<and>
            (\<forall>pairs. bannedSet = Some (bannedSetOf pairs) \<longrightarrow>
                     (toLowerCase n, toLowerCase t) \<notin> set pairs)"
    proof (intro ballI, clarify, intro conjI allI impI)
      fix n t assume nt: "(n, t) \<in> set m"
      from valid_perm_zip [OF v lp] nt mz have *: "t \<noteq> n \<and> \<not> is_banned bannedSet n t" by blast
      then show "t \<noteq> n" "\<not> is_banned bannedSet n t" by simp_all
      fix pairs assume "bannedSet = Some (bannedSetOf pairs)"
      with * is_banned_pairs show "(toLowerCase n, toLowerCase t) \<notin> set pairs" by blast
    qed
    from Some len keys bij ok show ?thesis by simp
  qed
qed

theorem createDerangement_sound_witness:
  "distinct [''Alice'', ''Bob'', ''Carol''] \<and>
   createDerangement [''Alice'', ''Bob'', ''Carol''] (Some (bannedSetOf [(''alice'', ''bob'')]))
     (\<lambda>k. if k = 0 then 1 else 0)
     = Some [(''Alice'', ''Carol''), (''Bob'', ''Alice''), (''Carol'', ''Bob'')] \<and>
   bij_betw (\<lambda>n. the (map_of [(''Alice'', ''Carol''), (''Bob'', ''Alice''), (''Carol'', ''Bob'')] n))
     (set [''Alice'', ''Bob'', ''Carol'']) (set [''Alice'', ''Bob'', ''Carol'']) \<and>
   createDerangement [''Alice''] None (\<lambda>k. 0) = None \<and>
   createDerangement [''Alice'', ''Bob''] None (\<lambda>k. 1) = None \<and>
   \<not> valid_perm [''Alice'', ''Bob''] (fst (shuffle [''Alice'', ''Bob''] (\<lambda>k. 1) (999 * (length [''Alice'', ''Bob''] - 1)))) None"
proof -
  have d: "distinct [''Alice'', ''Bob'', ''Carol'']" by simp
  have e: "createDerangement [''Alice'', ''Bob'', ''Carol''] (Some (bannedSetOf [(''alice'', ''bob'')]))
     (\<lambda>k. if k = 0 then 1 else 0)
     = Some [(''Alice'', ''Carol''), (''Bob'', ''Alice''), (''Carol'', ''Bob'')]"
    by code_simp
  have b: "bij_betw (\<lambda>n. the (map_of [(''Alice'', ''Carol''), (''Bob'', ''Alice''), (''Carol'', ''Bob'')] n))
     (set [''Alice'', ''Bob'', ''Carol'']) (set [''Alice'', ''Bob'', ''Carol''])"
    using createDerangement_sound [OF d, of "Some (bannedSetOf [(''alice'', ''bob'')])"
        "\<lambda>k. if k = 0 then 1 else 0"]
    unfolding e by simp
  have d1: "distinct [''Alice'']" by simp
  have n1: "createDerangement [''Alice''] None (\<lambda>k. 0) = None"
    using createDerangement_sound [OF d1, of None "\<lambda>k. 0"] by simp
  have d2: "distinct [''Alice'', ''Bob'']" by simp
  have e2: "createDerangement [''Alice'', ''Bob''] None (\<lambda>k. 1) = None"
    by code_simp
  have n2: "\<not> valid_perm [''Alice'', ''Bob''] (fst (shuffle [''Alice'', ''Bob''] (\<lambda>k. 1) (999 * (length [''Alice'', ''Bob''] - 1)))) None"
    using createDerangement_sound [OF d2, of None "\<lambda>k. 1"] unfolding e2 by simp
  from d e b n1 e2 n2 show ?thesis by blast
qed

text \<open>
  Claim C8. For the names Alice and Bob and an empty banned set, whatever the random values
  are, a mapping that the solver returns is the swap of the two.
\<close>

theorem two_names_swap:
  "createDerangement [''Alice'', ''Bob''] (Some {}) rnd = Some m \<Longrightarrow>
   m = [(''Alice'', ''Bob''), (''Bob'', ''Alice'')]"
proof -
  assume "createDerangement [''Alice'', ''Bob''] (Some {}) rnd = Some m"
  from createDerangement_Some [OF this] obtain perm where
    p: "mset perm = mset [''Alice'', ''Bob'']"
    and v: "valid_perm [''Alice'', ''Bob''] perm (Some {})"
    and m: "m = build_map [''Alice'', ''Bob''] perm"
    by blast
  from p have "length perm = 2" by (metis length_Cons list.size(3) size_mset numeral_2_eq_2)
  then obtain x y where xy: "perm = [x, y]"
    by (metis (no_types, opaque_lifting) length_0_conv length_Suc_conv numeral_2_eq_2)
  from v xy have x: "x \<noteq> ''Alice''" by (simp add: valid_perm_def)
  from p xy have "{#x, y#} = {#''Alice'', ''Bob''#}" by simp
  with x have "x = ''Bob'' \<and> y = ''Alice''"
    by (auto simp: add_eq_conv_diff)
  with m xy show ?thesis by (simp add: build_map_zip)
qed

theorem two_names_swap_witness:
  "createDerangement [''Alice'', ''Bob''] (Some {}) (\<lambda>k. 0)
     = Some [(''Alice'', ''Bob''), (''Bob'', ''Alice'')]"
proof -
  have "createDerangement [''Alice'', ''Bob''] (Some {}) (\<lambda>k. 0) \<noteq> None" by code_simp
  then obtain m where m: "createDerangement [''Alice'', ''Bob''] (Some {}) (\<lambda>k. 0) = Some m"
    by blast
  from two_names_swap [OF m] m show ?thesis by simp
qed

text \<open>
  Claim C10. The solver of the reduced deployment and the solver of the full deployment with
  an empty banned set accept the same permutations and, on the same names and the same
  random values, return the same mapping or both no solution.
\<close>

theorem reduced_solver_equiv:
  "createDerangement_reduced names rnd = createDerangement names (Some {}) rnd \<and>
   valid_perm_reduced names perm = valid_perm names perm (Some {})"
  by (simp add: createDerangement_reduced_def createDerangement_def attempts_reduced_eq
      valid_perm_reduced_def valid_perm_def is_banned_def)

theorem reduced_solver_equiv_witness:
  "createDerangement_reduced [''Alice'', ''Bob'', ''Carol''] (\<lambda>k. k)
     = createDerangement [''Alice'', ''Bob'', ''Carol''] (Some {}) (\<lambda>k. k)"
  using reduced_solver_equiv [of "[''Alice'', ''Bob'', ''Carol'']" "\<lambda>k. k"] by simp

section \<open>Properties of the constraint file\<close>

lemma split_str_none: "d \<notin> set s \<Longrightarrow> split_str d s = [s]"
proof -
  assume "d \<notin> set s"
  then have dw: "dropWhile (\<lambda>c. c \<noteq> d) s = []" by (induction s) auto
  show ?thesis by (subst split_str.simps) (simp add: dw)
qed

lemma split_str_append:
  "d \<notin> set a \<Longrightarrow> split_str d (a @ d # b) = a # split_str d b"
proof -
  assume d: "d \<notin> set a"
  then have 1: "dropWhile (\<lambda>c. c \<noteq> d) (a @ d # b) = d # b"
    by (induction a) auto
  from d have 2: "takeWhile (\<lambda>c. c \<noteq> d) (a @ d # b) = a"
    by (induction a) auto
  show ?thesis by (subst split_str.simps) (simp add: 1 2)
qed

lemma split_str_length: "length (split_str d s) = Suc (count_list s d)"
proof (induction d s rule: split_str.induct)
  case (1 d s)
  show ?case
  proof (cases "dropWhile (\<lambda>c. c \<noteq> d) s")
    case Nil
    then have "d \<notin> set s" by (metis (mono_tags, lifting) dropWhile_eq_Nil_conv)
    then show ?thesis by (simp add: split_str_none)
  next
    case (Cons x rest)
    then have x: "x = d" by (metis (mono_tags, lifting) hd_dropWhile list.sel(1) list.distinct(1))
    have s: "s = takeWhile (\<lambda>c. c \<noteq> d) s @ d # rest"
      using Cons x by (metis takeWhile_dropWhile_id)
    have t: "count_list (takeWhile (\<lambda>c. c \<noteq> d) s) d = 0"
      by (metis (mono_tags, lifting) count_list_0_iff set_takeWhileD)
    have "count_list s d = Suc (count_list rest d)"
      by (subst s) (simp add: t)
    moreover have "length (split_str d s) = Suc (length (split_str d rest))"
      by (subst split_str.simps) (simp add: Cons)
    ultimately show ?thesis using "1.IH" [OF Cons] by simp
  qed
qed

lemma lower_char_idem: "lower_char (lower_char c) = lower_char c"
proof -
  have "of_char (char_of (of_char c + 32 :: nat)) = (of_char c + 32 :: nat)"
    if "(of_char c :: nat) \<le> 222"
    using that by simp
  then show ?thesis by (auto simp: lower_char_def Let_def)
qed

lemma is_space_lower_char: "is_space (lower_char c) = is_space c"
proof -
  have "of_char (char_of (of_char c + 32 :: nat)) = (of_char c + 32 :: nat)"
    if "(of_char c :: nat) \<le> 222"
    using that by simp
  then show ?thesis by (auto simp: lower_char_def is_space_def Let_def)
qed

lemma toLowerCase_idem: "toLowerCase (toLowerCase s) = toLowerCase s"
  by (simp add: toLowerCase_def lower_char_idem)

lemma toLowerCase_Nil [simp]: "toLowerCase x = [] \<longleftrightarrow> x = []"
  by (simp add: toLowerCase_def)

lemma trim_toLowerCase: "trim (toLowerCase s) = toLowerCase (trim s)"
proof -
  have 1: "dropWhile is_space (map lower_char xs) = map lower_char (dropWhile is_space xs)" for xs
    by (induction xs) (simp_all add: is_space_lower_char)
  show ?thesis by (simp add: trim_def toLowerCase_def 1 rev_map)
qed

lemma trim_ends: "trim s \<noteq> [] \<Longrightarrow> \<not> is_space (hd (trim s)) \<and> \<not> is_space (last (trim s))"
proof -
  assume ne: "trim s \<noteq> []"
  let ?ys = "dropWhile is_space s"
  let ?zs = "dropWhile is_space (rev ?ys)"
  have t: "trim s = rev ?zs" by (simp add: trim_def)
  from ne t have zs: "?zs \<noteq> []" by simp
  have ys: "?ys \<noteq> []"
  proof
    assume e: "?ys = []"
    have "?zs = []" unfolding e by simp
    with zs show False by blast
  qed
  have "last (trim s) = hd ?zs" using zs t by (simp add: last_rev)
  moreover have "\<not> is_space (hd ?zs)" using zs by (rule hd_dropWhile)
  moreover have "hd (trim s) = last ?zs" using zs t by (simp add: hd_rev)
  moreover have "last ?zs = last (rev ?ys)"
    using zs by (metis append_self_conv2 last_appendR takeWhile_dropWhile_id)
  moreover have "last (rev ?ys) = hd ?ys" using ys by (simp add: last_rev)
  moreover have "\<not> is_space (hd ?ys)" using ys by (rule hd_dropWhile)
  ultimately show ?thesis by simp
qed

lemma dropWhile_id: "xs = [] \<or> \<not> P (hd xs) \<Longrightarrow> dropWhile P xs = xs"
  by (cases xs) auto

lemma trim_idem: "trim (trim s) = trim s"
proof (cases "trim s = []")
  case True
  show ?thesis unfolding True by (simp add: trim_def)
next
  case False
  from trim_ends [OF False] have a: "\<not> is_space (hd (trim s))" and b: "\<not> is_space (last (trim s))"
    by simp_all
  have 1: "dropWhile is_space (trim s) = trim s" using a by (simp add: dropWhile_id)
  have "hd (rev (trim s)) = last (trim s)" using False by (simp add: hd_rev)
  with b have 2: "dropWhile is_space (rev (trim s)) = rev (trim s)" by (simp add: dropWhile_id)
  show ?thesis by (subst (1) trim_def) (simp add: 1 2)
qed

lemma parse_line_Some:
  assumes "parse_line line = Some (g, r)"
  shows "g \<noteq> [] \<and> r \<noteq> [] \<and> toLowerCase g = g \<and> toLowerCase r = r \<and> trim g = g \<and> trim r = r"
proof -
  from assms obtain a b where "g = toLowerCase (trim a)" "r = toLowerCase (trim b)"
    "trim a \<noteq> []" "trim b \<noteq> []"
    by (auto simp: parse_line_def Let_def split: if_splits)
  then show ?thesis
    by (simp add: toLowerCase_idem trim_toLowerCase trim_idem)
qed

lemma parse_line_skip:
  "trim line = [] \<or> hd (trim line) = CHR ''#'' \<Longrightarrow> parse_line line = None"
  by (cases "trim line") (auto simp: parse_line_def Let_def)

lemma parse_line_count:
  "count_list (trim line) (CHR '','') \<noteq> 1 \<Longrightarrow> parse_line line = None"
  by (simp add: parse_line_def Let_def split_str_length)

lemma parse_line_two:
  assumes "trim line \<noteq> []" "hd (trim line) \<noteq> CHR ''#''" "trim line = a @ '','' @ b"
    "CHR '','' \<notin> set a" "CHR '','' \<notin> set b"
  shows "parse_line line =
     (if trim a = [] \<or> trim b = [] then None else Some (toLowerCase (trim a), toLowerCase (trim b)))"
proof -
  have parts: "split_str (CHR '','') (trim line) = [a, b]"
    using assms(3-5) by (simp add: split_str_append split_str_none)
  have hd: "take 1 (trim line) \<noteq> ''#''"
    using assms(1,2) by (cases "trim line") auto
  show ?thesis
    using assms(1) hd by (simp add: parse_line_def Let_def parts)
qed

lemma readConstraintsFile_pairs:
  assumes "(g, r) \<in> set (readConstraintsFile cfile)"
  shows "g \<noteq> [] \<and> r \<noteq> [] \<and> toLowerCase g = g \<and> toLowerCase r = r \<and> trim g = g \<and> trim r = r"
proof (cases cfile)
  case None
  with assms show ?thesis by (simp add: readConstraintsFile_def)
next
  case (Some raw)
  with assms obtain line where "parse_line line = Some (g, r)"
    by (auto simp: readConstraintsFile_def List.map_filter_def)
  then show ?thesis by (rule parse_line_Some)
qed

text \<open>
  Claim C6. A missing file gives no pairs and an empty banned set. A file gives, in order, the
  pairs of its lines that parse. A line that is blank or starts with \<open>#\<close> after trimming gives
  nothing; a line that does not hold exactly one comma gives nothing; a line \<open>a,b\<close> gives
  nothing if a field is empty after trimming and else the pair of the trimmed, lowercased
  fields. Every pair read consists of two non-empty, trimmed and lowercased strings.
\<close>

theorem constraint_loading:
  "readConstraintsFile None = [] \<and> buildBannedSet None = {} \<and>
   readConstraintsFile (Some raw) = List.map_filter parse_line (split_lines raw) \<and>
   (trim line = [] \<or> hd (trim line) = CHR ''#'' \<longrightarrow> parse_line line = None) \<and>
   (count_list (trim line) (CHR '','') \<noteq> 1 \<longrightarrow> parse_line line = None) \<and>
   (trim line \<noteq> [] \<and> hd (trim line) \<noteq> CHR ''#'' \<and> trim line = a @ '','' @ b \<and>
    CHR '','' \<notin> set a \<and> CHR '','' \<notin> set b \<longrightarrow>
    parse_line line =
      (if trim a = [] \<or> trim b = [] then None
       else Some (toLowerCase (trim a), toLowerCase (trim b)))) \<and>
   (\<forall>(g, r)\<in>set (readConstraintsFile cfile).
      g \<noteq> [] \<and> r \<noteq> [] \<and> toLowerCase g = g \<and> toLowerCase r = r \<and> trim g = g \<and> trim r = r)"
proof (intro conjI impI ballI)
  show "readConstraintsFile None = []" by (simp add: readConstraintsFile_def)
  show "buildBannedSet None = {}"
    by (simp add: buildBannedSet_def bannedSetOf_def readConstraintsFile_def)
  show "readConstraintsFile (Some raw) = List.map_filter parse_line (split_lines raw)"
    by (simp add: readConstraintsFile_def)
  show "parse_line line = None" if "trim line = [] \<or> hd (trim line) = CHR ''#''"
    using that by (rule parse_line_skip)
  show "parse_line line = None" if "count_list (trim line) (CHR '','') \<noteq> 1"
    using that by (rule parse_line_count)
  show "parse_line line =
      (if trim a = [] \<or> trim b = [] then None
       else Some (toLowerCase (trim a), toLowerCase (trim b)))"
    if "trim line \<noteq> [] \<and> hd (trim line) \<noteq> CHR ''#'' \<and> trim line = a @ '','' @ b \<and>
        CHR '','' \<notin> set a \<and> CHR '','' \<notin> set b"
    using that parse_line_two [of line a b] by blast
  show "case x of (g, r) \<Rightarrow>
      g \<noteq> [] \<and> r \<noteq> [] \<and> toLowerCase g = g \<and> toLowerCase r = r \<and> trim g = g \<and> trim r = r"
    if "x \<in> set (readConstraintsFile cfile)" for x
  proof (cases x)
    case (Pair g r)
    with that have "(g, r) \<in> set (readConstraintsFile cfile)" by simp
    from readConstraintsFile_pairs [OF this] Pair show ?thesis by simp
  qed
qed

theorem constraint_loading_witness:
  "readConstraintsFile (Some example_constraints) = [(''alice'', ''bob''), (''bob'', ''alice'')] \<and>
   split_lines example_constraints =
     [''# Format: GEBER, EMPFAENGER'', ''Alice, Bob'', [], ''  Bob ,ALICE'', ''Carol'',
      ''Alice, Bob, Carol'', '', Carol'', []] \<and>
   parse_line ''# Format: GEBER, EMPFAENGER'' = None \<and>
   parse_line ''Alice, Bob, Carol'' = None \<and>
   parse_line ''  Bob ,ALICE'' = Some (''bob'', ''alice'') \<and>
   parse_line '', Carol'' = None \<and>
   toLowerCase ''bob'' = ''bob'' \<and> trim ''alice'' = ''alice''"
proof -
  note t = constraint_loading [of example_constraints]
  have l: "split_lines example_constraints =
     [''# Format: GEBER, EMPFAENGER'', ''Alice, Bob'', [], ''  Bob ,ALICE'', ''Carol'',
      ''Alice, Bob, Carol'', '', Carol'', []]"
    by code_simp
  have m: "List.map_filter parse_line
     [''# Format: GEBER, EMPFAENGER'', ''Alice, Bob'', [], ''  Bob ,ALICE'', ''Carol'',
      ''Alice, Bob, Carol'', '', Carol'', []] = [(''alice'', ''bob''), (''bob'', ''alice'')]"
    by code_simp
  have r: "readConstraintsFile (Some example_constraints) = [(''alice'', ''bob''), (''bob'', ''alice'')]"
    using t [of undefined undefined undefined None] by (simp only: l m)
  have h1: "trim ''# Format: GEBER, EMPFAENGER'' = [] \<or> hd (trim ''# Format: GEBER, EMPFAENGER'') = CHR ''#''"
    by code_simp
  have p1: "parse_line ''# Format: GEBER, EMPFAENGER'' = None"
    using t [of "''# Format: GEBER, EMPFAENGER''" undefined undefined None] h1 by blast
  have h2: "count_list (trim ''Alice, Bob, Carol'') (CHR '','') \<noteq> 1" by code_simp
  have p2: "parse_line ''Alice, Bob, Carol'' = None"
    using t [of "''Alice, Bob, Carol''" undefined undefined None] h2 by blast
  have h3: "trim ''  Bob ,ALICE'' \<noteq> [] \<and> hd (trim ''  Bob ,ALICE'') \<noteq> CHR ''#'' \<and>
      trim ''  Bob ,ALICE'' = ''Bob '' @ '','' @ ''ALICE'' \<and>
      CHR '','' \<notin> set ''Bob '' \<and> CHR '','' \<notin> set ''ALICE''" by code_simp
  have e3: "(if trim ''Bob '' = [] \<or> trim ''ALICE'' = [] then None
       else Some (toLowerCase (trim ''Bob ''), toLowerCase (trim ''ALICE''))) = Some (''bob'', ''alice'')"
    by code_simp
  have "parse_line ''  Bob ,ALICE'' =
      (if trim ''Bob '' = [] \<or> trim ''ALICE'' = [] then None
       else Some (toLowerCase (trim ''Bob ''), toLowerCase (trim ''ALICE'')))"
    using t [of "''  Bob ,ALICE''" "''Bob ''" "''ALICE''" None] h3 by blast
  then have p3: "parse_line ''  Bob ,ALICE'' = Some (''bob'', ''alice'')"
    by (simp only: e3)
  have h4: "trim '', Carol'' \<noteq> [] \<and> hd (trim '', Carol'') \<noteq> CHR ''#'' \<and>
      trim '', Carol'' = [] @ '','' @ '' Carol'' \<and>
      CHR '','' \<notin> set [] \<and> CHR '','' \<notin> set '' Carol''" by code_simp
  have e4: "(if trim [] = [] \<or> trim '' Carol'' = [] then None
       else Some (toLowerCase (trim []), toLowerCase (trim '' Carol''))) = None"
    by code_simp
  have "parse_line '', Carol'' =
      (if trim [] = [] \<or> trim '' Carol'' = [] then None
       else Some (toLowerCase (trim []), toLowerCase (trim '' Carol'')))"
    using t [of "'', Carol''" "[]" "'' Carol''" None] h4 by blast
  then have p4: "parse_line '', Carol'' = None"
    by (simp only: e4)
  have p5: "toLowerCase ''bob'' = ''bob'' \<and> trim ''alice'' = ''alice''"
    using t [of undefined undefined undefined "Some example_constraints"] unfolding r by simp
  from r l p1 p2 p3 p4 p5 show ?thesis by blast
qed

section \<open>Properties of the handlers\<close>

lemma send_fields [simp]:
  "participants (send ws m s) = participants s"
  "sessions (send ws m s) = sessions s"
  "masters (send ws m s) = masters s"
  "openSocks (send ws m s) = openSocks s"
  "emails (send ws m s) = emails s"
  "loseTxt (send ws m s) = loseTxt s"
  by (simp_all add: send_def)


lemma send_eq: "send ws m s = s\<lparr>outbox := outbox s @ (if ws \<in> openSocks s then [(ws, m)] else [])\<rparr>"
  by (simp add: send_def)

lemma fold_send:
  "fold (\<lambda>x st. if P x then send (c x) (m x) st else st) xs s =
   s\<lparr>outbox := outbox s @ map (\<lambda>x. (c x, m x)) (filter (\<lambda>x. P x \<and> c x \<in> openSocks s) xs)\<rparr>"
proof (induction xs arbitrary: s)
  case Nil
  then show ?case by simp
next
  case (Cons x xs)
  show ?case by (simp add: Cons.IH send_def)
qed

lemma broadcastToMasters_eq:
  "broadcastToMasters msg s =
   s\<lparr>outbox := outbox s @ map (\<lambda>ws. (ws, msg)) (filter (\<lambda>ws. ws \<in> openSocks s) (masters s))\<rparr>"
  unfolding broadcastToMasters_def
  using fold_send [of "\<lambda>x. True" "\<lambda>x. x" "\<lambda>x. msg" "masters s" s] by simp

lemma getAllParticipants_cong:
  "participants s = participants t \<Longrightarrow> sessions s = sessions t \<Longrightarrow>
   getAllParticipants cmp s = getAllParticipants cmp t"
  by (simp add: getAllParticipants_def)

lemma broadcastParticipantsUpdate_fields [simp]:
  "participants (broadcastParticipantsUpdate cmp s) = participants s"
  "sessions (broadcastParticipantsUpdate cmp s) = sessions s"
  "masters (broadcastParticipantsUpdate cmp s) = masters s"
  "openSocks (broadcastParticipantsUpdate cmp s) = openSocks s"
  by (simp_all add: broadcastParticipantsUpdate_def broadcastToMasters_eq Let_def)

lemma set_name_dispatch:
  "d_type d = JString ''set_name'' \<Longrightarrow> d_name d = JString nm \<Longrightarrow> d_email d = JString em \<Longrightarrow>
   on_message cmp cfile rnd ws role d s = set_name cmp ws nm em s"
  by (simp add: on_message_def is_string_def str_def)

lemma remove_name_dispatch:
  "d_type d = JString ''remove_name'' \<Longrightarrow> d_name d = JString nm \<Longrightarrow>
   on_message cmp cfile rnd ws ''master'' d s = remove_name cmp nm s"
  by (simp add: on_message_def is_string_def str_def)

lemma remove_name_eq:
  "remove_name cmp nm s =
   (let tl = toLowerCase (trim nm);
        ps = map (\<lambda>(c, info). (c, if name_is tl info then info\<lparr>name := None, email := None\<rparr> else info))
               (participants s);
        ss = filter (\<lambda>(sid, r). \<not> session_is tl r) (sessions s);
        all = getAllParticipants cmp (s\<lparr>participants := ps, sessions := ss\<rparr>)
    in s\<lparr>participants := ps, sessions := ss,
         outbox := outbox s @
           map (\<lambda>(c, info). (c, Reset))
             (filter (\<lambda>(c, info). name_is tl info \<and> c \<in> openSocks s) (participants s)) @
           map (\<lambda>m. (m, Participants (map p_name all) all))
             (filter (\<lambda>m. m \<in> openSocks s) (masters s))\<rparr>)"
proof -
  define tl where "tl = toLowerCase (trim nm)"
  define ps where "ps = map (\<lambda>(c, info). (c, if name_is tl info then info\<lparr>name := None, email := None\<rparr> else info))
               (participants s)"
  have f: "(\<lambda>(sock, info) st. if name_is tl info then send sock Reset st else st)
         = (\<lambda>x st. if (\<lambda>(c, info). name_is tl info) x then send (fst x) ((\<lambda>x. Reset) x) st else st)"
    by (auto simp: fun_eq_iff)
  have m: "map (\<lambda>x. (fst x, Reset)) xs = map (\<lambda>(c, info). (c, Reset)) xs" for xs :: "(conn \<times> participant) list"
    by (simp add: case_prod_beta)
  have g: "(\<lambda>x. (case x of (c, info) \<Rightarrow> name_is tl info) \<and> fst x \<in> openSocks s)
         = (\<lambda>(c, info). name_is tl info \<and> c \<in> openSocks s)"
    by (auto simp: fun_eq_iff)
  show ?thesis
    unfolding remove_name_def tl_def [symmetric] Let_def ps_def [symmetric] f fold_send
      broadcastParticipantsUpdate_def broadcastToMasters_eq
    by (simp add: m g getAllParticipants_def)
qed

lemma map_unchanged:
  "(\<forall>(c, info)\<in>set ps. \<not> P info) \<Longrightarrow>
   map (\<lambda>(c, info). (c, if P info then f info else info)) ps = ps"
  by (induction ps) auto

lemma filter_unchanged:
  "(\<forall>(sid, r)\<in>set ss. \<not> Q r) \<Longrightarrow> filter (\<lambda>(sid, r). \<not> Q r) ss = ss"
  by (induction ss) auto

lemma isNameTaken_iff:
  "isNameTaken n s \<longleftrightarrow>
   (\<exists>(c, p)\<in>set (participants s). truthy (name p) \<and> toLowerCase (the (name p)) = toLowerCase n) \<or>
   (\<exists>(sid, r)\<in>set (sessions s). sess_name r \<noteq> [] \<and> \<not> truthy (target r) \<and>
        toLowerCase (sess_name r) = toLowerCase n)"
  by (auto simp: isNameTaken_def Let_def list_ex_iff)

subsection \<open>The states of the run\<close>

lemma three_registered_eval:
  "three_registered =
   \<lparr>participants =
    [(1, \<lparr>name = Some ''Alice'', email = Some ''alice@example.org'',
            sessionId = ''s1''\<rparr>),
     (2, \<lparr>name = Some ''Bob'', email = Some ''bob@example.org'',
            sessionId = ''s2''\<rparr>),
     (3, \<lparr>name = Some ''Carol'', email = Some ''carol@example.org'',
            sessionId = ''s3''\<rparr>)],
    masters = [0],
    sessions =
      [(''s1'',
        \<lparr>sess_name = ''Alice'', sess_email = ''alice@example.org'',
           target = None\<rparr>),
       (''s2'',
        \<lparr>sess_name = ''Bob'', sess_email = ''bob@example.org'',
           target = None\<rparr>),
       (''s3'',
        \<lparr>sess_name = ''Carol'', sess_email = ''carol@example.org'',
           target = None\<rparr>)],
    openSocks = {0, 1, 2, 3},
    outbox =
      [(1, Name_ok ''Alice'' (Some ''s1'')),
       (2, Name_ok ''Bob'' (Some ''s2'')),
       (3, Name_ok ''Carol'' (Some ''s3'')),
       (0, Participants [''Alice'', ''Bob'', ''Carol'']
            [\<lparr>p_name = ''Alice'', p_email = ''alice@example.org'',
                online = True\<rparr>,
             \<lparr>p_name = ''Bob'', p_email = ''bob@example.org'',
                online = True\<rparr>,
             \<lparr>p_name = ''Carol'', p_email = ''carol@example.org'',
                online = True\<rparr>])],
    emails = [], loseTxt = None\<rparr>"
  by code_simp

lemma first_draw_eval:
  "first_draw =
   \<lparr>participants =
    [(1, \<lparr>name = Some ''Alice'', email = Some ''alice@example.org'',
            sessionId = ''s1''\<rparr>),
     (2, \<lparr>name = Some ''Bob'', email = Some ''bob@example.org'',
            sessionId = ''s2''\<rparr>),
     (3, \<lparr>name = Some ''Carol'', email = Some ''carol@example.org'',
            sessionId = ''s3''\<rparr>)],
    masters = [0],
    sessions =
      [(''s1'',
        \<lparr>sess_name = ''Alice'', sess_email = ''alice@example.org'',
           target = Some ''Carol''\<rparr>),
       (''s2'',
        \<lparr>sess_name = ''Bob'', sess_email = ''bob@example.org'',
           target = Some ''Alice''\<rparr>),
       (''s3'',
        \<lparr>sess_name = ''Carol'', sess_email = ''carol@example.org'',
           target = Some ''Bob''\<rparr>)],
    openSocks = {0, 1, 2, 3},
    outbox =
      [(1, Name_ok ''Alice'' (Some ''s1'')),
       (2, Name_ok ''Bob'' (Some ''s2'')),
       (3, Name_ok ''Carol'' (Some ''s3'')),
       (0, Participants [''Alice'', ''Bob'', ''Carol'']
            [\<lparr>p_name = ''Alice'', p_email = ''alice@example.org'',
                online = True\<rparr>,
             \<lparr>p_name = ''Bob'', p_email = ''bob@example.org'',
                online = True\<rparr>,
             \<lparr>p_name = ''Carol'', p_email = ''carol@example.org'',
                online = True\<rparr>]),
       (1, Your_target ''Carol''), (2, Your_target ''Alice''),
       (3, Your_target ''Bob''), (0, Draw_complete)],
    emails =
      [(''alice@example.org'', ''Alice'', ''Carol''),
       (''bob@example.org'', ''Bob'', ''Alice''),
       (''carol@example.org'', ''Carol'', ''Bob'')],
    loseTxt =
      Some
       [(''Alice'', ''Carol''), (''Bob'', ''Alice''),
        (''Carol'', ''Bob'')]\<rparr>"
  unfolding first_draw_def three_registered_eval by code_simp

lemma second_draw_eval:
  "second_draw =
   \<lparr>participants =
    [(1, \<lparr>name = Some ''Alice'', email = Some ''alice@example.org'',
            sessionId = ''s1''\<rparr>),
     (2, \<lparr>name = Some ''Bob'', email = Some ''bob@example.org'',
            sessionId = ''s2''\<rparr>),
     (3, \<lparr>name = Some ''Carol'', email = Some ''carol@example.org'',
            sessionId = ''s3''\<rparr>)],
    masters = [0],
    sessions =
      [(''s1'',
        \<lparr>sess_name = ''Alice'', sess_email = ''alice@example.org'',
           target = Some ''Bob''\<rparr>),
       (''s2'',
        \<lparr>sess_name = ''Bob'', sess_email = ''bob@example.org'',
           target = Some ''Carol''\<rparr>),
       (''s3'',
        \<lparr>sess_name = ''Carol'', sess_email = ''carol@example.org'',
           target = Some ''Alice''\<rparr>)],
    openSocks = {0, 1, 2, 3},
    outbox =
      [(1, Name_ok ''Alice'' (Some ''s1'')),
       (2, Name_ok ''Bob'' (Some ''s2'')),
       (3, Name_ok ''Carol'' (Some ''s3'')),
       (0, Participants [''Alice'', ''Bob'', ''Carol'']
            [\<lparr>p_name = ''Alice'', p_email = ''alice@example.org'',
                online = True\<rparr>,
             \<lparr>p_name = ''Bob'', p_email = ''bob@example.org'',
                online = True\<rparr>,
             \<lparr>p_name = ''Carol'', p_email = ''carol@example.org'',
                online = True\<rparr>]),
       (1, Your_target ''Carol''), (2, Your_target ''Alice''),
       (3, Your_target ''Bob''), (0, Draw_complete),
       (1, Your_target ''Bob''), (2, Your_target ''Carol''),
       (3, Your_target ''Alice''), (0, Draw_complete)],
    emails =
      [(''alice@example.org'', ''Alice'', ''Carol''),
       (''bob@example.org'', ''Bob'', ''Alice''),
       (''carol@example.org'', ''Carol'', ''Bob''),
       (''alice@example.org'', ''Alice'', ''Bob''),
       (''bob@example.org'', ''Bob'', ''Carol''),
       (''carol@example.org'', ''Carol'', ''Alice'')],
    loseTxt =
      Some
       [(''Alice'', ''Bob''), (''Bob'', ''Carol''),
        (''Carol'', ''Alice'')]\<rparr>"
  unfolding second_draw_def first_draw_eval by code_simp

lemma alice_offline_eval:
  "alice_offline =
   \<lparr>participants =
    [(2, \<lparr>name = Some ''Bob'', email = Some ''bob@example.org'',
            sessionId = ''s2''\<rparr>),
     (3, \<lparr>name = Some ''Carol'', email = Some ''carol@example.org'',
            sessionId = ''s3''\<rparr>)],
    masters = [0],
    sessions =
      [(''s1'',
        \<lparr>sess_name = ''Alice'', sess_email = ''alice@example.org'',
           target = None\<rparr>),
       (''s2'',
        \<lparr>sess_name = ''Bob'', sess_email = ''bob@example.org'',
           target = None\<rparr>),
       (''s3'',
        \<lparr>sess_name = ''Carol'', sess_email = ''carol@example.org'',
           target = None\<rparr>)],
    openSocks = {0, 1, 2, 3},
    outbox =
      [(1, Name_ok ''Alice'' (Some ''s1'')),
       (2, Name_ok ''Bob'' (Some ''s2'')),
       (3, Name_ok ''Carol'' (Some ''s3'')),
       (0, Participants [''Alice'', ''Bob'', ''Carol'']
            [\<lparr>p_name = ''Alice'', p_email = ''alice@example.org'',
                online = True\<rparr>,
             \<lparr>p_name = ''Bob'', p_email = ''bob@example.org'',
                online = True\<rparr>,
             \<lparr>p_name = ''Carol'', p_email = ''carol@example.org'',
                online = True\<rparr>]),
       (0, Participants [''Alice'', ''Bob'', ''Carol'']
            [\<lparr>p_name = ''Alice'', p_email = ''alice@example.org'',
                online = False\<rparr>,
             \<lparr>p_name = ''Bob'', p_email = ''bob@example.org'',
                online = True\<rparr>,
             \<lparr>p_name = ''Carol'', p_email = ''carol@example.org'',
                online = True\<rparr>])],
    emails = [], loseTxt = None\<rparr>"
  unfolding alice_offline_def three_registered_eval by code_simp

text \<open>
  The record of Alice holds a target after the first draw, and removing her name deletes it.
\<close>

lemma alice_removed_sessions:
  "sessions alice_removed =
     [(''s2'', \<lparr>sess_name = ''Bob'', sess_email = ''bob@example.org'', target = Some ''Alice''\<rparr>),
      (''s3'', \<lparr>sess_name = ''Carol'', sess_email = ''carol@example.org'', target = Some ''Bob''\<rparr>)]"
  unfolding alice_removed_def first_draw_eval by code_simp

lemma reachable_three_registered: "reachable three_registered"
  unfolding three_registered_def Let_def
  by (intro reachable.connection reachable.message reachable.socket reachable.start)

lemma reachable_first_draw: "reachable first_draw"
  unfolding first_draw_def by (intro reachable.message reachable_three_registered)


subsection \<open>Commands of the observer\<close>

text \<open>
  Claim C9. A \<open>remove_name\<close> or \<open>start_draw\<close> message on a connection whose role is not
  \<open>master\<close> leaves the whole state as it is: the maps, and with the outbox unchanged no
  broadcast and no reply.
\<close>

theorem privileged_commands_observer_only:
  "role \<noteq> ''master'' \<Longrightarrow>
   d_type d = JString ''remove_name'' \<or> d_type d = JString ''start_draw'' \<Longrightarrow>
   on_message cmp cfile rnd ws role d s = s"
  by (auto simp: on_message_def)

theorem privileged_commands_observer_only_witness:
  "on_message compare_letters None (\<lambda>k. 0) 1 ''participant''
     \<lparr>d_type = JString ''start_draw'', d_name = JOther, d_email = JOther\<rparr> init_state = init_state \<and>
   on_message compare_letters None (\<lambda>k. 0) 1 ''participant''
     \<lparr>d_type = JString ''remove_name'', d_name = JString ''Alice'', d_email = JOther\<rparr> init_state = init_state"
  using privileged_commands_observer_only [of "''participant''"
      "\<lparr>d_type = JString ''start_draw'', d_name = JOther, d_email = JOther\<rparr>"
      compare_letters None "\<lambda>k. 0" 1 init_state]
    privileged_commands_observer_only [of "''participant''"
      "\<lparr>d_type = JString ''remove_name'', d_name = JString ''Alice'', d_email = JOther\<rparr>"
      compare_letters None "\<lambda>k. 0" 1 init_state]
  by simp

text \<open>
  Claim C3, as the code has it. A \<open>remove_name\<close> message from the observer clears name and
  address of every connection whose name equals the trimmed name under lowercasing, sends
  \<open>reset\<close> to each of them whose socket is open, and deletes every session record whose name
  matches, with or without a target; then the participants are broadcast. If no connection
  and no session record matches, participants and sessions stay as they are.
\<close>

theorem remove_name_effect:
  assumes "d_type d = JString ''remove_name''" "d_name d = JString nm"
  shows "participants (on_message cmp cfile rnd ws ''master'' d s) =
           map (\<lambda>(c, info).
                  (c, if name_is (toLowerCase (trim nm)) info
                      then info\<lparr>name := None, email := None\<rparr> else info))
             (participants s) \<and>
         sessions (on_message cmp cfile rnd ws ''master'' d s) =
           filter (\<lambda>(sid, r). \<not> session_is (toLowerCase (trim nm)) r) (sessions s) \<and>
         masters (on_message cmp cfile rnd ws ''master'' d s) = masters s \<and>
         outbox (on_message cmp cfile rnd ws ''master'' d s) =
           outbox s @
           map (\<lambda>(c, info). (c, Reset))
             (filter (\<lambda>(c, info). name_is (toLowerCase (trim nm)) info \<and> c \<in> openSocks s)
                (participants s)) @
           map (\<lambda>m. (m, Participants
                          (map p_name (getAllParticipants cmp (on_message cmp cfile rnd ws ''master'' d s)))
                          (getAllParticipants cmp (on_message cmp cfile rnd ws ''master'' d s))))
             (filter (\<lambda>m. m \<in> openSocks s) (masters s)) \<and>
         ((\<forall>(c, info)\<in>set (participants s). \<not> name_is (toLowerCase (trim nm)) info) \<and>
          (\<forall>(sid, r)\<in>set (sessions s). \<not> session_is (toLowerCase (trim nm)) r) \<longrightarrow>
          participants (on_message cmp cfile rnd ws ''master'' d s) = participants s \<and>
          sessions (on_message cmp cfile rnd ws ''master'' d s) = sessions s)"
proof -
  let ?s' = "on_message cmp cfile rnd ws ''master'' d s"
  let ?tl = "toLowerCase (trim nm)"
  let ?ps = "map (\<lambda>(c, info). (c, if name_is ?tl info then info\<lparr>name := None, email := None\<rparr> else info))
               (participants s)"
  let ?ss = "filter (\<lambda>(sid, r). \<not> session_is ?tl r) (sessions s)"
  have eq: "?s' = remove_name cmp nm s" by (rule remove_name_dispatch [OF assms])
  have p: "participants ?s' = ?ps" and q: "sessions ?s' = ?ss" and m: "masters ?s' = masters s"
    unfolding eq remove_name_eq Let_def by simp_all
  have all: "getAllParticipants cmp ?s' = getAllParticipants cmp (s\<lparr>participants := ?ps, sessions := ?ss\<rparr>)"
    by (rule getAllParticipants_cong) (simp_all add: p q)
  have o: "outbox ?s' = outbox s @
           map (\<lambda>(c, info). (c, Reset))
             (filter (\<lambda>(c, info). name_is ?tl info \<and> c \<in> openSocks s) (participants s)) @
           map (\<lambda>m. (m, Participants (map p_name (getAllParticipants cmp ?s')) (getAllParticipants cmp ?s')))
             (filter (\<lambda>m. m \<in> openSocks s) (masters s))"
    unfolding all unfolding eq remove_name_eq Let_def by simp
  have u: "(\<forall>(c, info)\<in>set (participants s). \<not> name_is ?tl info) \<and>
          (\<forall>(sid, r)\<in>set (sessions s). \<not> session_is ?tl r) \<longrightarrow>
          participants ?s' = participants s \<and> sessions ?s' = sessions s"
    unfolding p q by (simp add: map_unchanged filter_unchanged)
  from p q m o u show ?thesis by blast
qed

theorem remove_name_effect_witness:
  "participants (on_message compare_letters None rnd_zero 0 ''master'' (msg_remove_name '' ALICE'') three_registered)
     = [(1, \<lparr>name = None, email = None, sessionId = ''s1''\<rparr>),
        (2, \<lparr>name = Some ''Bob'', email = Some ''bob@example.org'', sessionId = ''s2''\<rparr>),
        (3, \<lparr>name = Some ''Carol'', email = Some ''carol@example.org'', sessionId = ''s3''\<rparr>)] \<and>
   map fst (sessions (on_message compare_letters None rnd_zero 0 ''master'' (msg_remove_name '' ALICE'') three_registered))
     = [''s2'', ''s3''] \<and>
   participants (on_message compare_letters None rnd_zero 0 ''master'' (msg_remove_name ''Dora'') three_registered)
     = participants three_registered \<and>
   sessions (on_message compare_letters None rnd_zero 0 ''master'' (msg_remove_name ''Dora'') three_registered)
     = sessions three_registered"
proof -
  have m: "d_type (msg_remove_name n) = JString ''remove_name''" "d_name (msg_remove_name n) = JString n" for n
    by (simp_all add: msg_remove_name_def)
  note a = remove_name_effect [OF m [of "'' ALICE''"], where cmp = compare_letters and cfile = None
      and rnd = rnd_zero and ws = 0 and s = three_registered]
  note b = remove_name_effect [OF m [of "''Dora''"], where cmp = compare_letters and cfile = None
      and rnd = rnd_zero and ws = 0 and s = three_registered]
  have a1: "map (\<lambda>(c, info).
                  (c, if name_is (toLowerCase (trim '' ALICE'')) info
                      then info\<lparr>name := None, email := None\<rparr> else info))
             (participants three_registered)
      = [(1, \<lparr>name = None, email = None, sessionId = ''s1''\<rparr>),
        (2, \<lparr>name = Some ''Bob'', email = Some ''bob@example.org'', sessionId = ''s2''\<rparr>),
        (3, \<lparr>name = Some ''Carol'', email = Some ''carol@example.org'', sessionId = ''s3''\<rparr>)]"
    unfolding three_registered_eval by code_simp
  have a2: "map fst (filter (\<lambda>(sid, r). \<not> session_is (toLowerCase (trim '' ALICE'')) r) (sessions three_registered))
      = [''s2'', ''s3'']"
    unfolding three_registered_eval by code_simp
  have b1: "(\<forall>(c, info)\<in>set (participants three_registered). \<not> name_is (toLowerCase (trim ''Dora'')) info) \<and>
          (\<forall>(sid, r)\<in>set (sessions three_registered). \<not> session_is (toLowerCase (trim ''Dora'')) r)"
    unfolding three_registered_eval by code_simp
  have p1: "participants (on_message compare_letters None rnd_zero 0 ''master'' (msg_remove_name '' ALICE'') three_registered)
     = [(1, \<lparr>name = None, email = None, sessionId = ''s1''\<rparr>),
        (2, \<lparr>name = Some ''Bob'', email = Some ''bob@example.org'', sessionId = ''s2''\<rparr>),
        (3, \<lparr>name = Some ''Carol'', email = Some ''carol@example.org'', sessionId = ''s3''\<rparr>)]"
    by (simp only: a [THEN conjunct1] a1)
  have p2: "map fst (sessions (on_message compare_letters None rnd_zero 0 ''master'' (msg_remove_name '' ALICE'') three_registered))
     = [''s2'', ''s3'']"
    by (simp only: a [THEN conjunct2, THEN conjunct1] a2)
  have p3: "participants (on_message compare_letters None rnd_zero 0 ''master'' (msg_remove_name ''Dora'') three_registered)
     = participants three_registered \<and>
   sessions (on_message compare_letters None rnd_zero 0 ''master'' (msg_remove_name ''Dora'') three_registered)
     = sessions three_registered"
    by (rule mp [OF b [THEN conjunct2, THEN conjunct2, THEN conjunct2, THEN conjunct2] b1])
  from p1 p2 p3 show ?thesis by blast
qed

text \<open>
  Claim C3 as stated fails: a record with a target is deleted.
\<close>

theorem remove_name_deletes_drawn_record:
  "map_of (sessions first_draw) ''s1''
     = Some \<lparr>sess_name = ''Alice'', sess_email = ''alice@example.org'', target = Some ''Carol''\<rparr> \<and>
   alice_removed = on_message compare_letters None rnd_zero 0 ''master'' (msg_remove_name ''Alice'') first_draw \<and>
   map_of (sessions alice_removed) ''s1'' = None"
proof (intro conjI)
  show "map_of (sessions first_draw) ''s1''
     = Some \<lparr>sess_name = ''Alice'', sess_email = ''alice@example.org'', target = Some ''Carol''\<rparr>"
    by (simp add: first_draw_eval)
  show "alice_removed = on_message compare_letters None rnd_zero 0 ''master'' (msg_remove_name ''Alice'') first_draw"
    by (rule alice_removed_def)
  show "map_of (sessions alice_removed) ''s1'' = None"
    by (simp add: alice_removed_sessions)
qed

subsection \<open>Name claims\<close>

text \<open>
  Claim C7. A \<open>set_name\<close> message that fails one of the checks (empty name, name longer
  than 40, empty address, malformed address, name taken) changes nothing but the outbox, where
  one error goes to the sending connection if its socket is open: participants, sessions and
  masters are as before.
\<close>

theorem set_name_rejected:
  assumes "d_type d = JString ''set_name''" "d_name d = JString nm" "d_email d = JString em"
    and "trim nm = [] \<or> 40 < length (trim nm) \<or> trim em = [] \<or> \<not> isValidEmail (trim em) \<or>
         isNameTaken (trim nm) s"
  shows "\<exists>e. e \<in> {NameEmpty, NameTooLong, EmailEmpty, EmailInvalid, NameTaken} \<and>
           on_message cmp cfile rnd ws role d s =
             s\<lparr>outbox := outbox s @ (if ws \<in> openSocks s then [(ws, Error e)] else [])\<rparr> \<and>
           participants (on_message cmp cfile rnd ws role d s) = participants s \<and>
           sessions (on_message cmp cfile rnd ws role d s) = sessions s \<and>
           masters (on_message cmp cfile rnd ws role d s) = masters s"
proof -
  have "\<exists>e. e \<in> {NameEmpty, NameTooLong, EmailEmpty, EmailInvalid, NameTaken} \<and>
          set_name cmp ws nm em s = send ws (Error e) s"
    using assms(4) by (auto simp: set_name_def Let_def)
  then obtain e where e: "e \<in> {NameEmpty, NameTooLong, EmailEmpty, EmailInvalid, NameTaken}"
    and eq: "on_message cmp cfile rnd ws role d s = send ws (Error e) s"
    using set_name_dispatch [OF assms(1-3)] by metis
  show ?thesis
    by (rule exI [of _ e]) (use e eq in \<open>simp add: send_eq\<close>)
qed

theorem set_name_rejected_witness:
  "40 < length (trim (replicate 41 (CHR ''a''))) \<and>
   on_message compare_letters None rnd_zero 1 ''participant''
     (msg_set_name (replicate 41 (CHR ''a'')) ''alice@example.org'') three_registered
     = three_registered\<lparr>outbox := outbox three_registered @ [(1, Error NameTooLong)]\<rparr>"
proof -
  have m: "d_type (msg_set_name n e) = JString ''set_name''" "d_name (msg_set_name n e) = JString n"
    "d_email (msg_set_name n e) = JString e" for n e
    by (simp_all add: msg_set_name_def)
  have l: "40 < length (trim (replicate 41 (CHR ''a'')))" by code_simp
  then have h: "trim (replicate 41 (CHR ''a'')) = [] \<or> 40 < length (trim (replicate 41 (CHR ''a''))) \<or>
      trim ''alice@example.org'' = [] \<or> \<not> isValidEmail (trim ''alice@example.org'') \<or>
      isNameTaken (trim (replicate 41 (CHR ''a''))) three_registered" by blast
  have o: "1 \<in> openSocks three_registered" unfolding three_registered_eval by simp
  have ob: "outbox (on_message compare_letters None rnd_zero 1 ''participant''
     (msg_set_name (replicate 41 (CHR ''a'')) ''alice@example.org'') three_registered)
     = outbox three_registered @ [(1, Error NameTooLong)]"
    unfolding three_registered_eval by code_simp
  from set_name_rejected [OF m h, where cmp = compare_letters and cfile = None and rnd = rnd_zero and ws = 1
      and role = "''participant''"] o
  obtain e where e: "on_message compare_letters None rnd_zero 1 ''participant''
     (msg_set_name (replicate 41 (CHR ''a'')) ''alice@example.org'') three_registered
     = three_registered\<lparr>outbox := outbox three_registered @ [(1, Error e)]\<rparr>"
    by auto
  with ob have "e = NameTooLong" by simp
  with e l show ?thesis by simp
qed

text \<open>
  Claim C4. In every state, a \<open>set_name\<close> message whose trimmed name equals under
  lowercasing a name held by a connection, or the name of a session record without target, is
  answered with an error to the sender and changes nothing else; the error is the one for a
  taken name unless an earlier check (length, address) already failed.
\<close>

theorem taken_name_rejected:
  assumes "d_type d = JString ''set_name''" "d_name d = JString nm" "d_email d = JString em"
    and "(\<exists>(c, p)\<in>set (participants s).
            truthy (name p) \<and> toLowerCase (the (name p)) = toLowerCase (trim nm)) \<or>
         (\<exists>(sid, r)\<in>set (sessions s).
            sess_name r \<noteq> [] \<and> \<not> truthy (target r) \<and>
            toLowerCase (sess_name r) = toLowerCase (trim nm))"
  shows "\<exists>e. e \<in> {NameTooLong, EmailEmpty, EmailInvalid, NameTaken} \<and>
           (length (trim nm) \<le> 40 \<and> trim em \<noteq> [] \<and> isValidEmail (trim em) \<longrightarrow> e = NameTaken) \<and>
           on_message cmp cfile rnd ws role d s =
             s\<lparr>outbox := outbox s @ (if ws \<in> openSocks s then [(ws, Error e)] else [])\<rparr>"
proof -
  have taken: "isNameTaken (trim nm) s" using assms(4) by (simp add: isNameTaken_iff)
  have ne: "trim nm \<noteq> []"
  proof
    assume "trim nm = []"
    with assms(4) show False by (auto simp: truthy_def toLowerCase_def split: option.splits)
  qed
  have "\<exists>e. e \<in> {NameTooLong, EmailEmpty, EmailInvalid, NameTaken} \<and>
          (length (trim nm) \<le> 40 \<and> trim em \<noteq> [] \<and> isValidEmail (trim em) \<longrightarrow> e = NameTaken) \<and>
          set_name cmp ws nm em s = send ws (Error e) s"
    using taken ne by (auto simp: set_name_def Let_def)
  then show ?thesis
    unfolding set_name_dispatch [OF assms(1-3)] send_eq .
qed

theorem taken_name_rejected_witness:
  "on_message compare_letters None rnd_zero 3 ''participant''
     (msg_set_name '' alice'' ''x@example.org'') three_registered
     = three_registered\<lparr>outbox := outbox three_registered @ [(3, Error NameTaken)]\<rparr> \<and>
   map_of (participants alice_offline) 1 = None \<and>
   on_message compare_letters None rnd_zero 3 ''participant''
     (msg_set_name ''ALICE '' ''x@example.org'') alice_offline
     = alice_offline\<lparr>outbox := outbox alice_offline @ [(3, Error NameTaken)]\<rparr>"
proof -
  have m: "d_type (msg_set_name n e) = JString ''set_name''" "d_name (msg_set_name n e) = JString n"
    "d_email (msg_set_name n e) = JString e" for n e
    by (simp_all add: msg_set_name_def)
  have v: "length (trim '' alice'') \<le> 40 \<and> trim ''x@example.org'' \<noteq> [] \<and>
           isValidEmail (trim ''x@example.org'')" by code_simp
  have v2: "length (trim ''ALICE '') \<le> 40" by code_simp
  have h1: "(\<exists>(c, p)\<in>set (participants three_registered).
            truthy (name p) \<and> toLowerCase (the (name p)) = toLowerCase (trim '' alice'')) \<or>
         (\<exists>(sid, r)\<in>set (sessions three_registered).
            sess_name r \<noteq> [] \<and> \<not> truthy (target r) \<and>
            toLowerCase (sess_name r) = toLowerCase (trim '' alice''))"
    unfolding three_registered_eval by code_simp
  have h2: "(\<exists>(c, p)\<in>set (participants alice_offline).
            truthy (name p) \<and> toLowerCase (the (name p)) = toLowerCase (trim ''ALICE '')) \<or>
         (\<exists>(sid, r)\<in>set (sessions alice_offline).
            sess_name r \<noteq> [] \<and> \<not> truthy (target r) \<and>
            toLowerCase (sess_name r) = toLowerCase (trim ''ALICE ''))"
    unfolding alice_offline_eval by code_simp
  have o1: "3 \<in> openSocks three_registered" unfolding three_registered_eval by simp
  have o2: "3 \<in> openSocks alice_offline" unfolding alice_offline_eval by simp
  have p: "map_of (participants alice_offline) 1 = None" unfolding alice_offline_eval by simp
  from taken_name_rejected [OF m h1, where cmp = compare_letters and cfile = None and rnd = rnd_zero and ws = 3
      and role = "''participant''"] v o1
  have a: "on_message compare_letters None rnd_zero 3 ''participant''
     (msg_set_name '' alice'' ''x@example.org'') three_registered
     = three_registered\<lparr>outbox := outbox three_registered @ [(3, Error NameTaken)]\<rparr>"
    by auto
  from taken_name_rejected [OF m h2, where cmp = compare_letters and cfile = None and rnd = rnd_zero and ws = 3
      and role = "''participant''"] v v2 o2
  have b: "on_message compare_letters None rnd_zero 3 ''participant''
     (msg_set_name ''ALICE '' ''x@example.org'') alice_offline
     = alice_offline\<lparr>outbox := outbox alice_offline @ [(3, Error NameTaken)]\<rparr>"
    by auto
  from a p b show ?thesis by blast
qed

subsection \<open>Session records\<close>

lemma on_connection_sessions [simp]:
  "sessions (on_connection cmp ws role cookie fresh s) = sessions s"
  by (simp add: on_connection_def Let_def split: option.splits)

lemma on_close_sessions [simp]: "sessions (on_close cmp ws s) = sessions s"
  by (simp add: on_close_def Let_def split: option.splits)










































lemma reachable_second_draw: "reachable second_draw"
  unfolding second_draw_def by (intro reachable.message reachable_first_draw)

lemma reachable_alice_removed: "reachable alice_removed"
  unfolding alice_removed_def by (intro reachable.message reachable_first_draw)




text \<open>
  Claim C1 on the run above: all three participants stay connected and the observer draws
  twice. The first draw stores Carol as the target in the session record of Alice, and the
  second draw replaces it by Bob.
\<close>

theorem redraw_overwrites_target:
  "map_of (sessions first_draw) ''s1''
     = Some \<lparr>sess_name = ''Alice'', sess_email = ''alice@example.org'', target = Some ''Carol''\<rparr> \<and>
   second_draw = on_message compare_letters None rnd_zero 0 ''master'' msg_start_draw first_draw \<and>
   map_of (sessions second_draw) ''s1''
     = Some \<lparr>sess_name = ''Alice'', sess_email = ''alice@example.org'', target = Some ''Bob''\<rparr>"
proof (intro conjI)
  show "map_of (sessions first_draw) ''s1''
     = Some \<lparr>sess_name = ''Alice'', sess_email = ''alice@example.org'', target = Some ''Carol''\<rparr>"
    by (simp add: first_draw_eval)
  show "second_draw = on_message compare_letters None rnd_zero 0 ''master'' msg_start_draw first_draw"
    by (rule second_draw_def)
  show "map_of (sessions second_draw) ''s1''
     = Some \<lparr>sess_name = ''Alice'', sess_email = ''alice@example.org'', target = Some ''Bob''\<rparr>"
    by (simp add: second_draw_eval)
qed

end
